theory Spec2Isabelle
  imports Complex_Main "HOL-Library.AList" "HOL-Library.List_Lexorder"
begin

section \<open>Python values\<close>

text \<open>
  A Python \<open>str\<close> is a sequence of Unicode code points, modelled as a list of naturals.
  \<open>ascii\<close> writes an ASCII literal; other characters of the source's literals are given
  by their code point (8211 is the en dash, 176 the degree sign).
\<close>

type_synonym ustr = "nat list"

definition ascii :: "string \<Rightarrow> ustr" where
  "ascii s = map of_char s"

text \<open>The code points that \<open>str.split()\<close> and \<open>str.strip()\<close> treat as whitespace.\<close>

definition is_space :: "nat \<Rightarrow> bool" where
  "is_space c \<longleftrightarrow>
     c \<in> set [9, 10, 11, 12, 13, 28, 29, 30, 31, 32, 133, 160, 5760,
               8232, 8233, 8239, 8287, 12288]
     \<or> (8192 \<le> c \<and> c \<le> 8202)"

text \<open>\<open>s.split()\<close>: the maximal runs of non-whitespace; \<open>cur\<close> is the token being read.\<close>

fun split_from :: "ustr \<Rightarrow> ustr \<Rightarrow> ustr list" where
  "split_from cur [] = (if cur = [] then [] else [cur])"
| "split_from cur (c # cs) =
     (if is_space c
      then (if cur = [] then split_from [] cs else cur # split_from [] cs)
      else split_from (cur @ [c]) cs)"

definition py_split :: "ustr \<Rightarrow> ustr list" where
  "py_split s = split_from [] s"

text \<open>\<open>sep.join(xs)\<close>.\<close>

fun py_join :: "ustr \<Rightarrow> ustr list \<Rightarrow> ustr" where
  "py_join sep [] = []"
| "py_join sep [x] = x"
| "py_join sep (x # y # ys) = x @ sep @ py_join sep (y # ys)"

text \<open>\<open>s.strip()\<close>.\<close>

definition py_strip :: "ustr \<Rightarrow> ustr" where
  "py_strip s = rev (dropWhile is_space (rev (dropWhile is_space s)))"

text \<open>\<open>k in s\<close> for strings: \<open>k\<close> occurs in \<open>s\<close> as a contiguous substring.\<close>

fun contains :: "ustr \<Rightarrow> ustr \<Rightarrow> bool" where
  "contains [] k = (k = [])"
| "contains (c # cs) k = (take (length k) (c # cs) = k \<or> contains cs k)"

text \<open>
  \<open>xs[a:b]\<close> with Python's treatment of negative and out-of-range bounds:
  a negative bound counts from the end, and every bound is clipped to the list.
\<close>

definition slice_index :: "nat \<Rightarrow> int \<Rightarrow> nat" where
  "slice_index n i = (if i < 0 then nat (max 0 (int n + i)) else min n (nat i))"

definition py_slice :: "'a list \<Rightarrow> int \<Rightarrow> int \<Rightarrow> 'a list" where
  "py_slice xs a b =
     (let lo = slice_index (length xs) a; hi = slice_index (length xs) b
      in take (hi - lo) (drop lo xs))"

text \<open>
  The values \<open>json.loads\<close> produces. A \<open>dict\<close> is an association list in insertion order.
  The pipeline applies to a float only the truth test, which is \<open>x \<noteq> 0\<close>.
\<close>

datatype pyval =
    PNone
  | PBool bool
  | PInt int
  | PFloat real
  | PStr ustr
  | PList "pyval list"
  | PDict "(ustr \<times> pyval) list"

type_synonym pydict = "(ustr \<times> pyval) list"

fun truthy :: "pyval \<Rightarrow> bool" where
  "truthy PNone = False"
| "truthy (PBool b) = b"
| "truthy (PInt i) = (i \<noteq> 0)"
| "truthy (PFloat x) = (x \<noteq> 0)"
| "truthy (PStr s) = (s \<noteq> [])"
| "truthy (PList xs) = (xs \<noteq> [])"
| "truthy (PDict kvs) = (kvs \<noteq> [])"

text \<open>\<open>a or b\<close>, \<open>d.get(k)\<close>, \<open>k in d\<close> and \<open>d[k] = v\<close>.\<close>

definition py_or :: "pyval \<Rightarrow> pyval \<Rightarrow> pyval" where
  "py_or a b = (if truthy a then a else b)"

definition dict_get :: "pydict \<Rightarrow> ustr \<Rightarrow> pyval" where
  "dict_get d k = (case map_of d k of None \<Rightarrow> PNone | Some v \<Rightarrow> v)"

definition dict_has :: "pydict \<Rightarrow> ustr \<Rightarrow> bool" where
  "dict_has d k = (map_of d k \<noteq> None)"

definition dict_set :: "pydict \<Rightarrow> ustr \<Rightarrow> pyval \<Rightarrow> pydict" where
  "dict_set d k v = AList.update k v d"

text \<open>The exceptions of the modelled code; the last three stand for whatever an external
  library (FAISS, rank_bm25, the document readers, the HTTP client) raises. \<open>AxisError\<close> is
  numpy's, a subclass of \<open>ValueError\<close>.\<close>

datatype py_error =
    ValueError
  | AxisError
  | RuntimeError
  | AttributeError
  | TypeError
  | IndexError
  | FileNotFoundError
  | LibraryError
  | ReaderError
  | BackendError

definition is_value_error :: "py_error \<Rightarrow> bool" where
  "is_value_error e \<longleftrightarrow> e = ValueError \<or> e = AxisError"

section \<open>Chunker\<close>

text \<open>
  \<open>split_into_chunks\<close> of \<open>utils_ingest.py\<close> (and its copy \<open>_split_into_chunks\<close> in
  \<open>rag.py\<close>, which differs in the default arguments only):
  \<^verbatim>\<open>
    words = text.split()
    chunks, i = [], 0
    while i < len(words):
        chunk = words[i:i+max_tokens]
        if chunk: chunks.append(" ".join(chunk))
        i += max(1, max_tokens - overlap)
    return chunks
  \<close>
  \<open>max_tokens\<close> and \<open>overlap\<close> are Python integers, of either sign.
\<close>

definition chunk_step :: "int \<Rightarrow> int \<Rightarrow> nat" where
  "chunk_step max_tokens overlap = nat (max 1 (max_tokens - overlap))"

function chunk_loop :: "ustr list \<Rightarrow> int \<Rightarrow> int \<Rightarrow> ustr list \<Rightarrow> nat \<Rightarrow> ustr list" where
  "chunk_loop words max_tokens overlap chunks i =
     (if i < length words
      then chunk_loop words max_tokens overlap
             (if py_slice words (int i) (int i + max_tokens) \<noteq> []
              then chunks @ [py_join (ascii '' '') (py_slice words (int i) (int i + max_tokens))]
              else chunks)
             (i + chunk_step max_tokens overlap)
      else chunks)"
  by pat_completeness auto
termination
  by (relation "measure (\<lambda>(words, max_tokens, overlap, chunks, i). length words - i)")
     (auto simp: chunk_step_def)

declare chunk_loop.simps [simp del]

definition split_into_chunks :: "ustr \<Rightarrow> int \<Rightarrow> int \<Rightarrow> ustr list" where
  "split_into_chunks text max_tokens overlap =
     chunk_loop (py_split text) max_tokens overlap [] 0"

definition rag_split_into_chunks :: "ustr \<Rightarrow> int \<Rightarrow> int \<Rightarrow> ustr list" where
  "rag_split_into_chunks text max_tokens overlap =
     chunk_loop (py_split text) max_tokens overlap [] 0"

text \<open>A token: a non-empty string without whitespace.\<close>

definition token :: "ustr \<Rightarrow> bool" where
  "token t \<longleftrightarrow> t \<noteq> [] \<and> (\<forall>c \<in> set t. \<not> is_space c)"

section \<open>Dense store\<close>

text \<open>
  A metadata row is a chunk record as \<open>ingest.py\<close> writes it (the docstring of
  \<open>FAISSStore.build\<close> asks for \<open>text\<close>, \<open>source\<close> and \<open>page\<close> at least).
  \<open>FAISSStore.search\<close> returns copies of rows with a \<open>score\<close> added, and
  \<open>RAGPipeline.retrieve\<close> adds \<open>_bm25\<close> to those. Scores are floats that the code only
  passes between libraries; their type \<open>'f\<close> is left open, as is the type \<open>'v\<close> of a vector.
  The field \<open>text\<close> is written \<open>chunk_text\<close>.
\<close>

record chunk =
  doc_id :: ustr
  version_hash :: ustr
  page :: int
  chunk_id :: ustr
  chunk_text :: ustr
  source :: ustr
  clause :: "ustr option"

record 'f hit = chunk +
  score :: 'f

record 'f passage = "'f hit" +
  bm25 :: 'f

text \<open>
  The libraries the retrieval path calls, as parameters:
  \<^item> \<open>str_lower\<close> is \<open>str.lower\<close>;
  \<^item> \<open>loads_row\<close> is \<open>json.loads\<close> on a line of the metadata log, \<open>None\<close> when it raises,
    and \<open>dumps_row\<close> is \<open>json.dumps\<close> on a row together with the encoding of the line
    as it is written, which raises on a row it cannot serialise or encode (a lone surrogate
    in a string gives \<open>UnicodeEncodeError\<close>, a \<open>ValueError\<close>);
  \<^item> \<open>l2n\<close> normalises one row of a matrix (\<open>_l2_normalize\<close> divides each row by its norm);
  \<^item> \<open>faiss_search idx q k\<close> is \<open>index.search(q, k)\<close> on the index holding the rows
    \<open>idx\<close>, giving the scores and the row numbers for the first query row;
  \<^item> \<open>bm25_scores corpus query\<close> is \<open>BM25Okapi(corpus).get_scores(query)\<close>;
  \<^item> \<open>argsort\<close> is \<open>numpy.argsort\<close> with its default sorting kind.
\<close>

record ('v, 'f) ext =
  str_lower :: "ustr \<Rightarrow> ustr"
  loads_row :: "ustr \<Rightarrow> chunk option"
  dumps_row :: "chunk \<Rightarrow> py_error + ustr"
  l2n :: "'v \<Rightarrow> 'v"
  faiss_search :: "'v list \<Rightarrow> 'v list \<Rightarrow> int \<Rightarrow> py_error + ('f list \<times> int list)"
  bm25_scores :: "ustr list list \<Rightarrow> ustr list \<Rightarrow> py_error + 'f list"
  argsort :: "'f list \<Rightarrow> nat list"

text \<open>
  The state of a \<open>FAISSStore\<close>: the two files of its directory (\<open>None\<close> when the file
  does not exist; an index file is the list of the vectors it stores, the metadata log is
  its list of lines) and the two attributes \<open>self.index\<close> and \<open>self._meta_cache\<close>.
\<close>

record 'v faiss_store =
  index_file :: "'v list option"
  meta_file :: "ustr list option"
  index :: "'v list option"
  meta_cache :: "chunk list option"

text \<open>\<open>FAISSStore(index_dir)\<close> over the files already in the directory.\<close>

definition new_store :: "'v list option \<Rightarrow> ustr list option \<Rightarrow> 'v faiss_store" where
  "new_store ifile mfile =
     \<lparr>index_file = ifile, meta_file = mfile, index = None, meta_cache = None\<rparr>"

text \<open>
  \<open>_save_meta\<close> opens the log for writing, which empties it, and writes one line per row;
  when \<open>json.dumps\<close> raises on a row, the lines of the rows before it stay written.
\<close>

fun write_rows ::
  "('v, 'f) ext \<Rightarrow> chunk list \<Rightarrow> ustr list \<Rightarrow> py_error option \<times> ustr list" where
  "write_rows ext [] written = (None, written)"
| "write_rows ext (rec # rest) written =
     (case dumps_row ext rec of
        Inl e \<Rightarrow> (Some e, written)
      | Inr s \<Rightarrow> write_rows ext rest (written @ [s @ [10]]))"

definition save_meta ::
  "('v, 'f) ext \<Rightarrow> chunk list \<Rightarrow> 'v faiss_store \<Rightarrow> (py_error + unit) \<times> 'v faiss_store" where
  "save_meta ext meta st =
     (case write_rows ext meta [] of
        (None, lines) \<Rightarrow> (Inr (), st\<lparr>meta_file := Some lines\<rparr>)
      | (Some e, lines) \<Rightarrow> (Inl e, st\<lparr>meta_file := Some lines\<rparr>))"

text \<open>
  \<open>_load_meta\<close>: no file gives the empty list; blank lines and lines that do not parse
  are skipped.
\<close>

definition load_meta :: "('v, 'f) ext \<Rightarrow> 'v faiss_store \<Rightarrow> chunk list" where
  "load_meta ext st =
     (case meta_file st of
        None \<Rightarrow> []
      | Some lines \<Rightarrow>
          List.map_filter
            (\<lambda>line. if py_strip line = [] then None else loads_row ext (py_strip line))
            lines)"

definition save_index :: "'v list \<Rightarrow> 'v faiss_store \<Rightarrow> 'v faiss_store" where
  "save_index idx st = st\<lparr>index_file := Some idx\<rparr>"

definition load_index :: "'v faiss_store \<Rightarrow> 'v list option" where
  "load_index st = index_file st"

definition ensure_loaded :: "('v, 'f) ext \<Rightarrow> 'v faiss_store \<Rightarrow> 'v faiss_store" where
  "ensure_loaded ext st =
     (let st1 = (if index st = None then st\<lparr>index := load_index st\<rparr> else st)
      in if meta_cache st1 = None then st1\<lparr>meta_cache := Some (load_meta ext st1)\<rparr> else st1)"

text \<open>
  The \<open>vectors\<close> argument of \<open>build\<close>, by what \<open>np.asarray(vectors, dtype="float32")\<close>
  makes of it:
  \<^item> \<open>Array2 rows\<close>: an array of shape \<open>(N, D)\<close>, or a list of \<open>N\<close> rows of equal length,
    given by its rows;
  \<^item> \<open>Array1 n\<close>: a one-dimensional array, or a flat list, of length \<open>n\<close> (the empty list
    \<open>[]\<close> is \<open>Array1 0\<close>);
  \<^item> \<open>Ragged n\<close>: a list of \<open>n\<close> rows of unequal lengths, on which \<open>np.asarray\<close> raises
    \<open>ValueError\<close>.
\<close>

datatype 'v vectors_arg = Array2 "'v list" | Array1 nat | Ragged nat

text \<open>\<open>vectors.shape[0]\<close>, or the length of the outer list.\<close>

fun num_rows :: "'v vectors_arg \<Rightarrow> nat" where
  "num_rows (Array2 rows) = length rows"
| "num_rows (Array1 n) = n"
| "num_rows (Ragged n) = n"

text \<open>
  \<open>build(vectors, meta)\<close>:
  \<^verbatim>\<open>
    if not isinstance(vectors, np.ndarray):
        vectors = np.asarray(vectors, dtype="float32")
    if vectors.dtype != np.float32:
        vectors = vectors.astype("float32", copy=False)
    if len(meta) != vectors.shape[0]:
        raise ValueError(...)
    vecs = _l2_normalize(vectors)
    d = vecs.shape[1]
    index = faiss.IndexFlatIP(d)
    index.add(vecs)
    self._save_index(index)
    self._save_meta(meta)
    self.index = index
    self._meta_cache = meta
  \<close>
  The conversion comes first and raises on ragged rows. The length check comes before any
  write. \<open>_l2_normalize\<close> takes the norm along axis 1, which a one-dimensional array does
  not have: numpy raises \<open>AxisError\<close>. The index file is written before the metadata log.
\<close>

definition build ::
  "('v, 'f) ext \<Rightarrow> 'v vectors_arg \<Rightarrow> chunk list \<Rightarrow> 'v faiss_store
     \<Rightarrow> (py_error + unit) \<times> 'v faiss_store" where
  "build ext vectors meta st =
     (case vectors of
        Ragged n \<Rightarrow> (Inl ValueError, st)
      | Array1 n \<Rightarrow>
          if length meta \<noteq> n then (Inl ValueError, st) else (Inl AxisError, st)
      | Array2 rows \<Rightarrow>
          if length meta \<noteq> length rows then (Inl ValueError, st)
          else
            let vecs = map (l2n ext) rows;
                st1 = save_index vecs st
            in case save_meta ext meta st1 of
                 (Inl e, st2) \<Rightarrow> (Inl e, st2)
               | (Inr u, st2) \<Rightarrow> (Inr (), st2\<lparr>index := Some vecs, meta_cache := Some meta\<rparr>))"

text \<open>
  The loop of \<open>search\<close> over \<open>zip(idxs, scores)\<close>: a negative row number is skipped, a
  row number beyond the cached metadata raises \<open>IndexError\<close>.
\<close>

fun collect_hits :: "chunk list \<Rightarrow> (int \<times> 'f) list \<Rightarrow> py_error + 'f hit list" where
  "collect_hits meta [] = Inr []"
| "collect_hits meta ((i, sc) # rest) =
     (if i < 0 then collect_hits meta rest
      else if nat i < length meta
      then (case collect_hits meta rest of
              Inl e \<Rightarrow> Inl e
            | Inr out \<Rightarrow> Inr (chunk.extend (meta ! nat i) (hit.fields sc) # out))
      else Inl IndexError)"

definition cached_rows :: "'v faiss_store \<Rightarrow> chunk list" where
  "cached_rows st = (case meta_cache st of None \<Rightarrow> [] | Some rows \<Rightarrow> rows)"

definition search ::
  "('v, 'f) ext \<Rightarrow> 'v list \<Rightarrow> int \<Rightarrow> 'v faiss_store \<Rightarrow> (py_error + 'f hit list) \<times> 'v faiss_store" where
  "search ext qvec top_k st0 =
     (let st = ensure_loaded ext st0 in
      case index st of
        None \<Rightarrow> (Inr [], st)
      | Some idx \<Rightarrow>
          if cached_rows st = [] then (Inr [], st)
          else
            let q = map (l2n ext) qvec;
                k = min top_k (int (length (cached_rows st)))
            in case faiss_search ext idx q k of
                 Inl e \<Rightarrow> (Inl e, st)
               | Inr (scores, idxs) \<Rightarrow> (collect_hits (cached_rows st) (zip idxs scores), st))"

section \<open>Hybrid retriever\<close>

definition temp_synonyms :: "ustr list" where
  "temp_synonyms =
     [ascii ''2'' @ [8211] @ ascii ''8 '' @ [176] @ ascii ''C'',
      ascii ''2 - 8 '' @ [176] @ ascii ''C'',
      ascii ''2 to 8 '' @ [176] @ ascii ''C'',
      ascii ''2-8 '' @ [176] @ ascii ''C'',
      ascii ''2-8C'',
      ascii ''refrigerated'', ascii ''cold chain'', ascii ''controlled temperature'',
      ascii ''storage and transportation'', ascii ''transport'', ascii ''shipping'',
      ascii ''Section 24'', ascii ''TGO 109'']"

definition malaria_synonyms :: "ustr list" where
  "malaria_synonyms =
     [ascii ''malaria'', ascii ''malaria-endemic'', ascii ''endemic region'',
      ascii ''ineligib'', ascii ''deferr'', ascii ''period of ineligibility'']"

definition deferral_synonyms :: "ustr list" where
  "deferral_synonyms =
     [ascii ''deferral'', ascii ''period of ineligibility'', ascii ''ineligible'',
      ascii ''donor eligibility'', ascii ''exclusion'', ascii ''contraindicated'']"

text \<open>\<open>list(dict.fromkeys(xs))\<close>: the first occurrence of each element, in order.\<close>

definition uniq :: "'a list \<Rightarrow> 'a list" where
  "uniq xs = rev (remdups (rev xs))"

definition expand_query :: "('v, 'f) ext \<Rightarrow> ustr \<Rightarrow> ustr" where
  "expand_query ext q =
     (let ql = str_lower ext q;
          extra =
            (if list_ex (contains ql)
                  [ascii ''2'' @ [8211] @ ascii ''8'', ascii ''2-8'', ascii ''2 to 8'',
                   ascii ''refriger'', ascii ''cold chain'', ascii ''transport'',
                   ascii ''shipping'', ascii ''storage'']
             then temp_synonyms else [])
            @ (if contains ql (ascii ''malaria'') \<or> contains ql (ascii ''endemic'')
               then malaria_synonyms else [])
            @ (if list_ex (contains ql)
                    [ascii ''deferr'', ascii ''ineligib'', ascii ''exclusion'', ascii ''eligib'']
               then deferral_synonyms else [])
      in if extra = [] then q
         else q @ ascii '' '' @ py_join (ascii '' '') (take 12 (uniq extra)))"

text \<open>\<open>build_bm25\<close> tokenises the corpus; the ranking object itself is the library's.\<close>

definition build_bm25 :: "('v, 'f) ext \<Rightarrow> ustr list \<Rightarrow> ustr list list" where
  "build_bm25 ext corpus = map (\<lambda>doc. py_split (str_lower ext doc)) corpus"

text \<open>
  \<open>TFIDFEmbedder\<close>: \<open>vec\<close> is the fitted vectorizer loaded from
  \<open>tfidf_vectorizer.pkl\<close>, given by what its \<open>transform\<close> computes, or \<open>None\<close> when the
  file does not exist.
\<close>

record 'v tfidf_embedder =
  vec :: "(ustr list \<Rightarrow> 'v list) option"

definition transform :: "'v tfidf_embedder \<Rightarrow> ustr list \<Rightarrow> py_error + 'v list" where
  "transform e texts =
     (case vec e of None \<Rightarrow> Inl RuntimeError | Some f \<Rightarrow> Inr (f texts))"

record 'v rag_pipeline =
  rag_index :: "'v faiss_store"
  rag_embedder :: "'v tfidf_embedder"

definition embed :: "'v rag_pipeline \<Rightarrow> ustr list \<Rightarrow> py_error + 'v list" where
  "embed p texts = transform (rag_embedder p) texts"

text \<open>
  The comprehension \<open>[dense_hits[i] | {"_bm25": float(scores[i])} for i in order]\<close>.
\<close>

fun rerank :: "'f hit list \<Rightarrow> 'f list \<Rightarrow> nat list \<Rightarrow> py_error + 'f passage list" where
  "rerank dense_hits scores [] = Inr []"
| "rerank dense_hits scores (i # order) =
     (if i < length dense_hits \<and> i < length scores
      then (case rerank dense_hits scores order of
              Inl e \<Rightarrow> Inl e
            | Inr out \<Rightarrow> Inr (hit.extend (dense_hits ! i) (passage.fields (scores ! i)) # out))
      else Inl IndexError)"

definition retrieve ::
  "('v, 'f::uminus) ext \<Rightarrow> ustr \<Rightarrow> int \<Rightarrow> 'v rag_pipeline
     \<Rightarrow> (py_error + 'f passage list) \<times> 'v rag_pipeline" where
  "retrieve ext question top_k p =
     (if vec (rag_embedder p) = None then (Inr [], p)
      else
        let q_expanded = expand_query ext question in
        case embed p [q_expanded] of
          Inl e \<Rightarrow> (Inl e, p)
        | Inr qvec \<Rightarrow>
            (case search ext qvec (top_k * 2) (rag_index p) of
               (Inl e, st) \<Rightarrow> (Inl e, p\<lparr>rag_index := st\<rparr>)
             | (Inr dense_hits, st) \<Rightarrow>
                 if dense_hits = [] then (Inr [], p\<lparr>rag_index := st\<rparr>)
                 else
                   (case bm25_scores ext (build_bm25 ext (map chunk_text dense_hits))
                           (py_split (str_lower ext q_expanded)) of
                      Inl e \<Rightarrow> (Inl e, p\<lparr>rag_index := st\<rparr>)
                    | Inr scores \<Rightarrow>
                        (rerank dense_hits scores
                           (py_slice (argsort ext (map uminus scores)) 0 top_k),
                         p\<lparr>rag_index := st\<rparr>))))"

text \<open>The identity of a retrieved chunk.\<close>

definition passage_key :: "'f passage \<Rightarrow> ustr \<times> ustr \<times> ustr" where
  "passage_key r = (doc_id r, version_hash r, chunk_id r)"

definition chunk_key :: "chunk \<Rightarrow> ustr \<times> ustr \<times> ustr" where
  "chunk_key r = (doc_id r, version_hash r, chunk_id r)"

text \<open>
  What the retriever relies on from the libraries: FAISS reports a row at most once, and
  \<open>numpy.argsort\<close> returns each position at most once.
\<close>

definition faiss_rows_once :: "('v, 'f) ext \<Rightarrow> bool" where
  "faiss_rows_once ext \<longleftrightarrow>
     (\<forall>idx q k scores idxs.
        faiss_search ext idx q k = Inr (scores, idxs) \<longrightarrow> distinct (filter (\<lambda>i. 0 \<le> i) idxs))"

definition argsort_once :: "('v, 'f) ext \<Rightarrow> bool" where
  "argsort_once ext \<longleftrightarrow> (\<forall>xs. distinct (argsort ext xs))"






section \<open>Grounded answer assembler\<close>

text \<open>
  The generation backend and the conversions of Python values, as parameters:
  \<^item> \<open>generate\<close> is \<open>llm.generate\<close>, which returns the model's text or raises;
  \<^item> \<open>json_loads\<close> is \<open>json.loads\<close>, \<open>None\<close> when it raises;
  \<^item> \<open>py_str\<close> is \<open>str()\<close> on a value that is not a string.
\<close>

record backend =
  generate :: "ustr \<Rightarrow> py_error + ustr"
  json_loads :: "ustr \<Rightarrow> pyval option"
  py_str :: "pyval \<Rightarrow> ustr"

text \<open>The pipeline together with the log of the prompts sent to the backend.\<close>

record 'v world =
  pipeline :: "'v rag_pipeline"
  backend_calls :: "ustr list"

text \<open>\<open>_short_name\<close>: the part of a path after its last slash.\<close>

definition short_name :: "ustr \<Rightarrow> ustr" where
  "short_name path = (if path = [] then [] else rev (takeWhile (\<lambda>c. c \<noteq> 47) (rev path)))"

text \<open>
  \<open>_short_name\<close> on a value of any type: a falsy value gives the empty string, and a
  truthy value that is not a string has no \<open>rsplit\<close>.
\<close>

definition short_name_of :: "pyval \<Rightarrow> py_error + ustr" where
  "short_name_of v =
     (if \<not> truthy v then Inr []
      else case v of PStr s \<Rightarrow> Inr (short_name s) | _ \<Rightarrow> Inl AttributeError)"

definition str_of :: "backend \<Rightarrow> pyval \<Rightarrow> ustr" where
  "str_of b v = (case v of PStr s \<Rightarrow> s | _ \<Rightarrow> py_str b v)"

subsection \<open>The prompt\<close>

definition prompt_rules :: ustr where
  "prompt_rules =
     ascii ''You are a Regulatory Impact Assessment assistant for Australian '' @
     ascii ''Lifeblood.'' @ [10] @
     ascii ''Answer strictly using ONLY the quoted passages.'' @ [10] @
     ascii ''Include citations as [Document (page X)]. If unclear, say so and'' @
     ascii '' require human supervision.'' @ [10] @
     ascii ''Return a JSON object in the exact schema shown.''"

definition prompt_schema :: ustr where
  "prompt_schema =
     [10, 10] @
     ascii ''Your response MUST be a single JSON object matching this schema '' @
     ascii ''and constraints:'' @ [10] @ ascii ''{'' @ [10] @ ascii ''  '' @ [34] @
     ascii ''compliance_status'' @ [34] @ ascii '': '' @ [34] @ ascii ''Compliant'' @
     [34] @ ascii '' | '' @ [34] @ ascii ''Not Compliant'' @ [34] @ ascii '' | '' @ [34] @
     ascii ''Unclear'' @ [34] @ ascii '','' @ [10] @ ascii ''  '' @ [34] @
     ascii ''rationale'' @ [34] @ ascii '': '' @ [34] @ ascii ''1'' @ [8211] @
     ascii ''3 sentences grounded ONLY in the quotes'' @ [34] @ ascii '','' @ [10] @
     ascii ''  '' @ [34] @ ascii ''citations'' @ [34] @ ascii '': ['' @ [10] @
     ascii ''    {'' @ [34] @ ascii ''source'' @ [34] @ ascii '': '' @ [34] @
     ascii ''filename.pdf'' @ [34] @ ascii '', '' @ [34] @ ascii ''page'' @ [34] @
     ascii '': <int>, '' @ [34] @ ascii ''quote'' @ [34] @ ascii '': '' @ [34] @
     ascii ''verbatim clause'' @ [34] @ ascii ''}'' @ [10] @ ascii ''  ],'' @ [10] @
     ascii ''  '' @ [34] @ ascii ''violations_or_risks'' @ [34] @ ascii '': ['' @ [10] @
     ascii ''    '' @ [34] @
     ascii ''At least 1 specific risk or violated clause; if unclear, state t'' @
     ascii ''he most likely risk.'' @ [34, 10] @ ascii ''  ],'' @ [10] @ ascii ''  '' @
     [34] @ ascii ''alternative_suggestions'' @ [34] @ ascii '': ['' @ [10] @
     ascii ''    '' @ [34] @ ascii ''At least 1 concrete mitigation (e.g., validated 2'' @
     [8211] @ ascii ''8 '' @ [176] @ ascii ''C shipper, temp logger).'' @ [34, 10] @
     ascii ''  ],'' @ [10] @ ascii ''  '' @ [34] @ ascii ''summary_proposal'' @ [34] @
     ascii '': '' @ [34] @ ascii ''Short summary referencing cited clauses.'' @ [34] @
     ascii '','' @ [10] @ ascii ''  '' @ [34] @ ascii ''human_supervision_required'' @
     [34] @ ascii '': true'' @ [10] @ ascii ''}'' @ [10, 10] @ ascii ''Rules:'' @ [10] @
     ascii ''- Do NOT invent citations; every assertion must be backed by the'' @
     ascii '' provided quotes.'' @ [10] @
     ascii ''- If the user asks to LIST requirements (e.g., '' @ [8220] @
     ascii ''what must/include/requirements'' @ [8221] @
     ascii ''), DO NOT assess current compliance.'' @ [10] @
     ascii ''  In that case: set '' @ [34] @ ascii ''compliance_status'' @ [34] @
     ascii '' to '' @ [34] @ ascii ''Compliant'' @ [34] @
     ascii '' to indicate the requirement extraction is complete,'' @ [10] @
     ascii ''  provide the requirements and citations, and set '' @ [34] @
     ascii ''human_supervision_required'' @ [34] @ ascii '' to false.'' @ [10] @
     ascii ''- If evidence is insufficient, set '' @ [34] @ ascii ''Unclear'' @ [34] @
     ascii '' BUT STILL provide at least one plausible risk and one mitigatio'' @
     ascii ''n suggestion.'' @ [10] @ ascii ''- Keep quotes short (1'' @ [8211] @
     ascii ''3 lines) and include the page numbers.'' @ [10]"

definition format_quote :: "backend \<Rightarrow> nat \<Rightarrow> 'f passage \<Rightarrow> ustr" where
  "format_quote b i p =
     ascii ''['' @ py_str b (PInt (int i)) @ ascii ''] '' @ source p @ ascii '' (page ''
       @ py_str b (PInt (page p)) @ (ascii '')'' @ [10, 34, 34, 34, 10]) @ chunk_text p @ ([10, 34, 34, 34, 10])"

definition format_prompt :: "backend \<Rightarrow> ustr \<Rightarrow> 'f passage list \<Rightarrow> ustr" where
  "format_prompt b question passages =
     prompt_rules @ [10, 10] @ ascii ''Question:'' @ [10] @ question @ [10, 10] @ ascii ''Evidence passages:'' @ [10]
       @ py_join [10] (map (\<lambda>(i, p). format_quote b i p) (zip [1 ..< Suc (length passages)] passages))
       @ prompt_schema"

subsection \<open>The rule table for risks and mitigations\<close>

record backfill =
  risks :: "ustr list"
  alts :: "ustr list"

definition backfill_risks_suggestions :: "('v, 'f) ext \<Rightarrow> ustr \<Rightarrow> backfill" where
  "backfill_risks_suggestions ext question =
     (let q = str_lower ext question;
          cold = list_ex (contains q)
                   [ascii ''2'' @ [8211] @ ascii ''8'',
                    ascii ''2-8'',
                    ascii ''2 to 8'',
                    ascii ''refriger'',
                    ascii ''cold chain'',
                    ascii ''transport'',
                    ascii ''shipping''];
          malaria = (contains q (ascii ''malaria'') \<or> contains q (ascii ''endemic''));
          risks0 =
            (if cold then
               [ascii ''Risk of temperature excursion during transport leading to produc'' @
                  ascii ''t quality compromise.'',
                ascii ''Potential non-compliance with storage/transport clauses if 2'' @ [8211] @
                  ascii ''8 '' @ [176] @ ascii ''C cannot be maintained for full transit.'']
             else [])
            @ (if malaria then
                 [ascii ''Risk of transfusion-transmitted malaria if deferral/eligibility '' @
                    ascii ''rules are not applied.'']
               else []);
          alts0 =
            (if cold then
               [ascii ''Use a validated 2'' @ [8211] @ ascii ''8 '' @ [176] @
                  ascii ''C shipper with lane qualification and pre-conditioned gel packs.'',
                ascii ''Include a calibrated temperature logger and define acceptance cr'' @
                  ascii ''iteria; review on receipt.'',
                ascii ''Reduce transit time or split shipments; ensure monitored handove'' @
                  ascii ''r at each leg.'']
             else [])
            @ (if malaria then
                 [ascii ''Apply the specified deferral period or require negative testing '' @
                    ascii ''per the cited appendix before acceptance.'']
               else [])
      in \<lparr>risks = (if risks0 = [] then
                     [ascii ''Evidence insufficient; risk of non-compliance if policy deviates'' @
                        ascii '' from cited clauses.'']
                   else risks0),
          alts = (if alts0 = [] then
                    [ascii ''Escalate for human review and obtain written confirmation agains'' @
                       ascii ''t the cited standard/appendix.'']
                  else alts0)\<rparr>)"

subsection \<open>\<open>RAGPipeline.answer\<close>\<close>

text \<open>The record returned when retrieval is empty.\<close>

definition no_evidence_answer :: "('v, 'f) ext \<Rightarrow> ustr \<Rightarrow> pydict" where
  "no_evidence_answer ext question =
     (let rf = backfill_risks_suggestions ext question in
      [(ascii ''compliance_status'', PStr (ascii ''Unclear'')),
       (ascii ''rationale'', PStr (ascii ''No index or no matches. Ingest documents first.'')),
       (ascii ''citations'', PList []),
       (ascii ''violations_or_risks'', PList (map PStr (risks rf))),
       (ascii ''alternative_suggestions'', PList (map PStr (alts rf))),
       (ascii ''summary_proposal'',
          PStr (ascii ''Ingest relevant documents and retry; see suggested mitigations.'')),
       (ascii ''human_supervision_required'', PBool True)])"

text \<open>
  A citation derived from a passage:
  \<open>{"source": _short_name(p["source"]), "page": p["page"], "quote": " ".join(p["text"].split())[:n]}\<close>.
\<close>

definition citation_of :: "nat \<Rightarrow> 'f passage \<Rightarrow> pyval" where
  "citation_of n p =
     PDict [(ascii ''source'', PStr (short_name (source p))),
            (ascii ''page'', PInt (page p)),
            (ascii ''quote'', PStr (take n (py_join (ascii '' '') (py_split (chunk_text p)))))]"

text \<open>The record built in the \<open>except\<close> branch, when the model's text does not parse.\<close>

definition fallback_data :: "ustr \<Rightarrow> 'f passage list \<Rightarrow> pydict" where
  "fallback_data reply passages =
     [(ascii ''compliance_status'', PStr (ascii ''Unclear'')),
      (ascii ''rationale'', PStr (take 600 reply)),
      (ascii ''citations'', PList (map (citation_of 300) (take 4 passages))),
      (ascii ''violations_or_risks'', PList []),
      (ascii ''alternative_suggestions'', PList []),
      (ascii ''summary_proposal'',
         PStr (ascii ''See grounded excerpts and consult a human reviewer.'')),
      (ascii ''human_supervision_required'', PBool True)]"

text \<open>
  The body of the loop \<open>for c in data["citations"]\<close>; \<open>c.get\<close> needs \<open>c\<close> to be a
  \<open>dict\<close>.
\<close>

definition normalise_citation :: "backend \<Rightarrow> ustr \<Rightarrow> int \<Rightarrow> pyval \<Rightarrow> py_error + pyval" where
  "normalise_citation b first_src first_page c =
     (case c of
        PDict cd \<Rightarrow>
          (let src0 = py_or (dict_get cd (ascii ''source'')) (PStr first_src);
               src = (if src0 = PStr (ascii ''doc'') \<or> src0 = PStr [] \<or> src0 = PNone
                      then PStr first_src else src0)
           in case short_name_of src of
                Inl e \<Rightarrow> Inl e
              | Inr s \<Rightarrow>
                  (let cd1 = dict_set cd (ascii ''source'') (PStr s);
                       cd2 = (if \<not> dict_has cd1 (ascii ''page'')
                                 \<or> \<not> truthy (dict_get cd1 (ascii ''page''))
                              then dict_set cd1 (ascii ''page'') (PInt first_page) else cd1);
                       cd3 = (if truthy (dict_get cd2 (ascii ''quote''))
                              then dict_set cd2 (ascii ''quote'')
                                     (PStr (take 400 (py_join (ascii '' '')
                                        (py_split (str_of b (dict_get cd2 (ascii ''quote'')))))))
                              else cd2)
                   in Inr (PDict cd3)))
      | _ \<Rightarrow> Inl AttributeError)"

fun normalise_each :: "backend \<Rightarrow> ustr \<Rightarrow> int \<Rightarrow> pyval list \<Rightarrow> py_error + pyval list" where
  "normalise_each b first_src first_page [] = Inr []"
| "normalise_each b first_src first_page (c # cs) =
     (case normalise_citation b first_src first_page c of
        Inl e \<Rightarrow> Inl e
      | Inr c' \<Rightarrow>
          (case normalise_each b first_src first_page cs of
             Inl e \<Rightarrow> Inl e
           | Inr cs' \<Rightarrow> Inr (c' # cs')))"

text \<open>
  ``Normalise / backfill citations''. A truthy \<open>citations\<close> that is not a list either
  cannot be iterated (a number, \<open>True\<close>) or yields strings (the characters of a string,
  the keys of a dict), on which \<open>c.get\<close> fails. \<open>passages\<close> is not empty here.
\<close>

definition normalise_citations ::
  "backend \<Rightarrow> 'f passage list \<Rightarrow> pydict \<Rightarrow> py_error + pydict" where
  "normalise_citations b passages d =
     (if \<not> truthy (dict_get d (ascii ''citations''))
      then Inr (dict_set d (ascii ''citations'') (PList (map (citation_of 300) (take 3 passages))))
      else
        (let first_src = (if passages \<noteq> [] then short_name (source (hd passages)) else []);
             first_page = (if passages \<noteq> [] then page (hd passages) else 1)
         in case dict_get d (ascii ''citations'') of
              PList cs \<Rightarrow>
                (case normalise_each b first_src first_page cs of
                   Inl e \<Rightarrow> Inl e
                 | Inr cs' \<Rightarrow> Inr (dict_set d (ascii ''citations'') (PList cs')))
            | PStr s \<Rightarrow> Inl AttributeError
            | PDict kvs \<Rightarrow> Inl AttributeError
            | _ \<Rightarrow> Inl TypeError))"

text \<open>``Backfill risks/suggestions when empty''.\<close>

definition backfill_empty :: "('v, 'f) ext \<Rightarrow> ustr \<Rightarrow> pydict \<Rightarrow> pydict" where
  "backfill_empty ext question d =
     (let rf = backfill_risks_suggestions ext question;
          d1 = (if \<not> truthy (dict_get d (ascii ''violations_or_risks''))
                then dict_set d (ascii ''violations_or_risks'') (PList (map PStr (risks rf)))
                else d)
      in if \<not> truthy (dict_get d1 (ascii ''alternative_suggestions''))
         then dict_set d1 (ascii ''alternative_suggestions'') (PList (map PStr (alts rf)))
         else d1)"

text \<open>
  ``Human supervision policy'':
  \<^verbatim>\<open>
    status = (data.get("compliance_status") or "Unclear").strip()
    data["human_supervision_required"] = (status != "Compliant")
  \<close>
  Only a string has \<open>strip\<close>.
\<close>

definition supervision_policy :: "pydict \<Rightarrow> py_error + pydict" where
  "supervision_policy d =
     (case py_or (dict_get d (ascii ''compliance_status'')) (PStr (ascii ''Unclear'')) of
        PStr s \<Rightarrow>
          Inr (dict_set d (ascii ''human_supervision_required'')
                 (PBool (py_strip s \<noteq> ascii ''Compliant'')))
      | _ \<Rightarrow> Inl AttributeError)"

text \<open>
  What \<open>answer\<close> does with the model's text \<open>reply\<close>: parse it or fall back, then the
  three steps above. \<open>data.get\<close> needs the parsed value to be a \<open>dict\<close>.
\<close>

definition assemble ::
  "('v, 'f) ext \<Rightarrow> backend \<Rightarrow> ustr \<Rightarrow> 'f passage list \<Rightarrow> ustr \<Rightarrow> py_error + pydict" where
  "assemble ext b question passages reply =
     (case (case json_loads b reply of
              None \<Rightarrow> PDict (fallback_data reply passages)
            | Some v \<Rightarrow> v) of
        PDict d \<Rightarrow>
          (case normalise_citations b passages d of
             Inl e \<Rightarrow> Inl e
           | Inr d1 \<Rightarrow> supervision_policy (backfill_empty ext question d1))
      | _ \<Rightarrow> Inl AttributeError)"

definition answer ::
  "('v, 'f::uminus) ext \<Rightarrow> backend \<Rightarrow> ustr \<Rightarrow> int \<Rightarrow> 'v world
     \<Rightarrow> (py_error + pydict) \<times> 'v world" where
  "answer ext b question top_k w =
     (case retrieve ext question top_k (pipeline w) of
        (Inl e, p) \<Rightarrow> (Inl e, w\<lparr>pipeline := p\<rparr>)
      | (Inr passages, p) \<Rightarrow>
          if passages = [] then (Inr (no_evidence_answer ext question), w\<lparr>pipeline := p\<rparr>)
          else
            (let prompt = format_prompt b question passages;
                 w1 = w\<lparr>pipeline := p, backend_calls := backend_calls w @ [prompt]\<rparr>
             in case generate b prompt of
                  Inl e \<Rightarrow> (Inl e, w1)
                | Inr reply \<Rightarrow> (assemble ext b question passages reply, w1)))"

text \<open>
  The supervision flag of a record agrees with its status: the flag is the test
  \<open>status != "Compliant"\<close> on the \<open>compliance_status\<close> of the record (\<open>"Unclear"\<close> when
  that is missing or falsy) with the surrounding whitespace removed.
\<close>

definition supervised :: "pydict \<Rightarrow> bool" where
  "supervised d \<longleftrightarrow>
     (\<exists>s. py_or (dict_get d (ascii ''compliance_status'')) (PStr (ascii ''Unclear'')) = PStr s
        \<and> dict_get d (ascii ''human_supervision_required'')
            = PBool (py_strip s \<noteq> ascii ''Compliant''))"

text \<open>
  The parsed values on which \<open>answer\<close> does not raise: an object whose \<open>citations\<close> is
  falsy (or missing) or a list of objects, each with a \<open>source\<close> that is falsy (or missing)
  or a string, and whose \<open>compliance_status\<close> is falsy (or missing) or a string.
\<close>

fun is_str :: "pyval \<Rightarrow> bool" where
  "is_str (PStr s) = True"
| "is_str v = False"




section \<open>Version manager and ingestion\<close>

text \<open>
  \<open>ingest.py\<close> and the hashing helpers of \<open>utils_ingest.py\<close>. The items of
  \<open>_iter_sources()\<close> are files (\<open>id\<close>, \<open>path\<close>) and URLs (\<open>id\<close>, \<open>url\<close>); a reader returns
  the pages of a document as pairs of a page number and a text.
\<close>

datatype src = FileSource ustr ustr | UrlSource ustr ustr

type_synonym pages = "(int \<times> ustr) list"

text \<open>
  What ingestion takes from outside, as parameters:
  \<^item> \<open>utf8_encode\<close> is \<open>t.encode("utf-8", errors="ignore")\<close> and \<open>sha256_hexdigest\<close> is
    \<open>hashlib.sha256\<close> followed by \<open>hexdigest\<close>;
  \<^item> \<open>clock n\<close> is what \<open>now_iso()\<close> returns at its \<open>n\<close>-th call;
  \<^item> \<open>path_ext path\<close> is \<open>os.path.splitext(path.lower())[1]\<close>;
  \<^item> the four readers return the pages or raise;
  \<^item> \<open>manifest_loads\<close> is \<open>json.loads\<close>, \<open>None\<close> when it raises, and \<open>manifest_dumps\<close> is
    \<open>json.dumps\<close> together with the encoding of the line as it is written;
  \<^item> \<open>sorted_newest_first\<close> is \<open>sorted(versions, key=lambda r: r["created_at"], reverse=True)\<close>,
    which raises when two keys cannot be compared;
  \<^item> \<open>guess_clause_label\<close> searches a chunk for the clause pattern;
  \<^item> \<open>str_of_int\<close> is \<open>str()\<close> on an integer;
  \<^item> \<open>fit_transform\<close> fits the TF-IDF vectorizer on the texts and returns it (by what its
    \<open>transform\<close> computes) with the matrix of the texts, or raises.
\<close>

record 'v ingest_env =
  utf8_encode :: "ustr \<Rightarrow> nat list"
  sha256_hexdigest :: "nat list \<Rightarrow> ustr"
  clock :: "nat \<Rightarrow> ustr"
  path_ext :: "ustr \<Rightarrow> ustr"
  read_pdf :: "ustr \<Rightarrow> py_error + pages"
  read_docx :: "ustr \<Rightarrow> py_error + pages"
  read_txt :: "ustr \<Rightarrow> py_error + pages"
  read_web :: "ustr \<Rightarrow> py_error + pages"
  manifest_loads :: "ustr \<Rightarrow> pyval option"
  manifest_dumps :: "pyval \<Rightarrow> py_error + ustr"
  sorted_newest_first :: "pydict list \<Rightarrow> py_error + pydict list"
  guess_clause_label :: "ustr \<Rightarrow> ustr option"
  str_of_int :: "int \<Rightarrow> ustr"
  fit_transform :: "ustr list \<Rightarrow> py_error + ((ustr list \<Rightarrow> 'v list) \<times> 'v list)"



text \<open>
  The files of the index directory that ingestion reads and writes: the manifest
  \<open>meta.jsonl\<close> and the chunk file \<open>chunks.jsonl\<close> by their lines (an absent manifest and an
  empty one behave alike, so the manifest is a list), the vectorizer file and the two files
  of the dense store; \<open>ticks\<close> counts the calls of \<open>now_iso()\<close>.
\<close>

record 'v ingest_state =
  manifest_file :: "ustr list"
  chunks_file :: "ustr list option"
  vectorizer_file :: "(ustr list \<Rightarrow> 'v list) option"
  store_index_file :: "'v list option"
  store_meta_file :: "ustr list option"
  ticks :: nat

definition now_iso :: "'v ingest_env \<Rightarrow> 'v ingest_state \<Rightarrow> ustr \<times> 'v ingest_state" where
  "now_iso env st = (clock env (ticks st), st\<lparr>ticks := Suc (ticks st)\<rparr>)"





subsection \<open>The manifest\<close>


fun key_num :: "pyval \<Rightarrow> real option" where
  "key_num (PBool b) = Some (if b then 1 else 0)"
| "key_num (PInt i) = Some (real_of_int i)"
| "key_num (PFloat x) = Some x"
| "key_num v = None"

definition key_eq :: "pyval \<Rightarrow> pyval \<Rightarrow> bool" where
  "key_eq a b =
     (case (key_num a, key_num b) of
        (Some x, Some y) \<Rightarrow> x = y
      | (None, None) \<Rightarrow> a = b
      | _ \<Rightarrow> False)"


fun klookup :: "(pyval \<times> 'a) list \<Rightarrow> pyval \<Rightarrow> 'a option" where
  "klookup [] k = None"
| "klookup ((k', v) # rest) k = (if key_eq k' k then Some v else klookup rest k)"

fun kupdate :: "pyval \<Rightarrow> 'a \<Rightarrow> (pyval \<times> 'a) list \<Rightarrow> (pyval \<times> 'a) list" where
  "kupdate k v [] = [(k, v)]"
| "kupdate k v ((k', v') # rest) =
     (if key_eq k' k then (k', v) # rest else (k', v') # kupdate k v rest)"







definition append_chunk ::
  "'v ingest_env \<Rightarrow> pydict \<Rightarrow> 'v ingest_state \<Rightarrow> (py_error + unit) \<times> 'v ingest_state" where
  "append_chunk env rec st =
     (case manifest_dumps env (PDict rec) of
        Inl e \<Rightarrow> (Inl e, st)
      | Inr line \<Rightarrow>
          (Inr (), st\<lparr>chunks_file :=
             Some ((case chunks_file st of None \<Rightarrow> [] | Some ls \<Rightarrow> ls) @ [line @ [10]])\<rparr>))"

subsection \<open>The loop of \<open>scan_and_index\<close>\<close>

text \<open>
  The inner loops \<open>for page_num, page_txt in pages\<close> and
  \<open>for i, chunk in enumerate(split_into_chunks(page_txt))\<close>, which write the chunk rows.
  The two counters of the function only feed its printed messages and are left out.
\<close>

fun write_chunks ::
  "'v ingest_env \<Rightarrow> ustr \<Rightarrow> pyval \<Rightarrow> int \<Rightarrow> (nat \<times> ustr) list \<Rightarrow> 'v ingest_state
     \<Rightarrow> (py_error + unit) \<times> 'v ingest_state" where
  "write_chunks env name vh page_num [] st = (Inr (), st)"
| "write_chunks env name vh page_num ((i, chunk) # rest) st =
     (case append_chunk env
             [(ascii ''doc_id'', PStr name),
              (ascii ''version_hash'', vh),
              (ascii ''page'', PInt page_num),
              (ascii ''chunk_id'',
                 PStr (str_of_int env page_num @ ascii ''-'' @ str_of_int env (int i))),
              (ascii ''text'', PStr chunk),
              (ascii ''source'', PStr name),
              (ascii ''clause'',
                 case guess_clause_label env chunk of None \<Rightarrow> PNone | Some l \<Rightarrow> PStr l)]
             st of
        (Inl e, st') \<Rightarrow> (Inl e, st')
      | (Inr u, st') \<Rightarrow> write_chunks env name vh page_num rest st')"

fun write_pages ::
  "'v ingest_env \<Rightarrow> ustr \<Rightarrow> pyval \<Rightarrow> pages \<Rightarrow> 'v ingest_state
     \<Rightarrow> (py_error + unit) \<times> 'v ingest_state" where
  "write_pages env name vh [] st = (Inr (), st)"
| "write_pages env name vh ((page_num, page_txt) # rest) st =
     (case write_chunks env name vh page_num
             (enumerate 0 (split_into_chunks page_txt 420 60)) st of
        (Inl e, st') \<Rightarrow> (Inl e, st')
      | (Inr u, st') \<Rightarrow> write_pages env name vh rest st')"




text \<open>
  The end of \<open>scan_and_index\<close>: the chunk file is read back (a run that wrote no chunk has
  no chunk file to open), the vectorizer is fitted on all chunk texts and saved, and the
  dense store is rebuilt.
\<close>

fun read_chunk_rows :: "('v, 'f) ext \<Rightarrow> ustr list \<Rightarrow> py_error + chunk list" where
  "read_chunk_rows ext [] = Inr []"
| "read_chunk_rows ext (line # rest) =
     (case loads_row ext line of
        None \<Rightarrow> Inl ValueError
      | Some r \<Rightarrow>
          (case read_chunk_rows ext rest of Inl e \<Rightarrow> Inl e | Inr rs \<Rightarrow> Inr (r # rs)))"

definition build_index ::
  "'v ingest_env \<Rightarrow> ('v, 'f) ext \<Rightarrow> 'v ingest_state \<Rightarrow> (py_error + unit) \<times> 'v ingest_state" where
  "build_index env ext st =
     (case chunks_file st of
        None \<Rightarrow> (Inl FileNotFoundError, st)
      | Some lines \<Rightarrow>
          (case read_chunk_rows ext lines of
             Inl e \<Rightarrow> (Inl e, st)
           | Inr meta \<Rightarrow>
               if meta = [] then (Inr (), st)
               else
                 (case fit_transform env (map chunk_text meta) of
                    Inl e \<Rightarrow> (Inl e, st)
                  | Inr (fitted, X) \<Rightarrow>
                      (case build ext (Array2 X) meta
                              (new_store (store_index_file st) (store_meta_file st)) of
                         (r, store) \<Rightarrow>
                           (r, st\<lparr>vectorizer_file := Some fitted,
                                  store_index_file := index_file store,
                                  store_meta_file := meta_file store\<rparr>)))))"




section \<open>A small instance of the libraries\<close>

text \<open>
  To run the model on concrete inputs: vectors are integer lists, scores are integers,
  a metadata line parses when it starts with an opening brace (and then gives a row whose
  text and chunk id are the line), a row is written as its text unless the text holds a
  surrogate code point, FAISS scores every row 0 and reports the first \<open>k\<close> rows, BM25
  scores every candidate 0, and sorting equal keys leaves the order as it is.
\<close>

definition row_of_line :: "ustr \<Rightarrow> chunk" where
  "row_of_line l =
     \<lparr>doc_id = ascii ''d'', version_hash = ascii ''h'', page = 1, chunk_id = l,
      chunk_text = l, source = ascii ''raw/d.pdf'', clause = None\<rparr>"

definition toy_ext :: "(int list, int) ext" where
  "toy_ext =
     \<lparr>str_lower = (\<lambda>s. s),
      loads_row = (\<lambda>l. if take 1 l = [123] then Some (row_of_line l) else None),
      dumps_row = (\<lambda>r. if list_ex (\<lambda>c. 55296 \<le> c \<and> c \<le> 57343) (chunk_text r)
                     then Inl ValueError else Inr (chunk_text r)),
      l2n = (\<lambda>v. v),
      faiss_search = (\<lambda>idx q k.
         Inr (map (\<lambda>_. 0) [0 ..< min (nat k) (length idx)],
              map int [0 ..< min (nat k) (length idx)])),
      bm25_scores = (\<lambda>corpus query. Inr (map (\<lambda>_. 0) corpus)),
      argsort = (\<lambda>xs. [0 ..< length xs])\<rparr>"

definition toy_vec :: "ustr list \<Rightarrow> int list list" where
  "toy_vec texts = map (\<lambda>_. [1]) texts"

text \<open>A pipeline opened on a directory without a vectorizer file, and one with all three files.\<close>

definition unfitted_pipeline :: "int list rag_pipeline" where
  "unfitted_pipeline = \<lparr>rag_index = new_store None None, rag_embedder = \<lparr>vec = None\<rparr>\<rparr>"

definition toy_pipeline :: "int list list \<Rightarrow> ustr list \<Rightarrow> int list rag_pipeline" where
  "toy_pipeline ifile mfile =
     \<lparr>rag_index = new_store (Some ifile) (Some mfile), rag_embedder = \<lparr>vec = Some toy_vec\<rparr>\<rparr>"

text \<open>
  A backend that answers every prompt with \<open>reply\<close>, which \<open>json.loads\<close> parses to
  \<open>parsed\<close>; and the world of a pipeline whose store holds one row.
\<close>

definition toy_backend :: "ustr \<Rightarrow> pyval option \<Rightarrow> backend" where
  "toy_backend reply parsed =
     \<lparr>generate = (\<lambda>prompt. Inr reply),
      json_loads = (\<lambda>t. if t = reply then parsed else None),
      py_str = (\<lambda>v. [])\<rparr>"

definition toy_world :: "int list world" where
  "toy_world = \<lparr>pipeline = toy_pipeline [[1]] [[123, 49, 10]], backend_calls = []\<rparr>"

definition toy_passage :: "int passage" where
  "toy_passage = hit.extend (chunk.extend (row_of_line [123, 49]) (hit.fields 0)) (passage.fields 0)"







section \<open>Properties of the chunker\<close>

lemma split_from_tokens:
  "\<forall>c \<in> set cur. \<not> is_space c \<Longrightarrow> t \<in> set (split_from cur s) \<Longrightarrow> token t"
proof (induction s arbitrary: cur)
  case Nil
  then show ?case by (cases "cur = []") (simp_all add: token_def)
next
  case (Cons c cs)
  show ?case
  proof (cases "is_space c")
    case True
    show ?thesis
    proof (cases "cur = []")
      case True
      with \<open>is_space c\<close> Cons.prems(2) have "t \<in> set (split_from [] cs)" by simp
      then show ?thesis by (intro Cons.IH [of "[]"]) simp_all
    next
      case False
      with \<open>is_space c\<close> Cons.prems(2) have "t = cur \<or> t \<in> set (split_from [] cs)" by simp
      then show ?thesis
      proof
        assume "t = cur"
        with False Cons.prems(1) show ?thesis by (simp add: token_def)
      next
        assume "t \<in> set (split_from [] cs)"
        then show ?thesis by (intro Cons.IH [of "[]"]) simp_all
      qed
    qed
  next
    case False
    with Cons.prems(2) have "t \<in> set (split_from (cur @ [c]) cs)" by simp
    moreover from False Cons.prems(1) have "\<forall>x \<in> set (cur @ [c]). \<not> is_space x" by simp
    ultimately show ?thesis by (intro Cons.IH [of "cur @ [c]"])
  qed
qed

lemma py_split_tokens: "t \<in> set (py_split s) \<Longrightarrow> token t"
  unfolding py_split_def by (rule split_from_tokens) auto

lemma split_from_append:
  "\<forall>c \<in> set t. \<not> is_space c \<Longrightarrow> split_from cur (t @ rest) = split_from (cur @ t) rest"
  by (induction t arbitrary: cur) auto

lemma split_from_token_sep:
  "token t \<Longrightarrow> is_space c \<Longrightarrow> split_from [] (t @ c # rest) = t # split_from [] rest"
  by (simp add: split_from_append token_def)

lemma split_from_token_end: "token t \<Longrightarrow> split_from [] t = [t]"
  using split_from_append [of t "[]" "[]"] by (simp add: token_def)

lemma is_space_32: "is_space 32"
  by (simp add: is_space_def)

lemma py_split_join:
  "\<forall>t \<in> set w. token t \<Longrightarrow> py_split (py_join (ascii '' '') w) = w"
proof (induction "ascii '' ''" w rule: py_join.induct)
  case 1
  then show ?case by (simp add: py_split_def)
next
  case (2 x)
  then show ?case by (simp add: py_split_def split_from_token_end)
next
  case (3 x y ys)
  have "py_join (ascii '' '') (x # y # ys) = x @ 32 # py_join (ascii '' '') (y # ys)"
    by (simp add: ascii_def)
  with 3 show ?case
    by (simp add: py_split_def split_from_token_sep is_space_32)
qed

lemma py_slice_window:
  assumes "0 \<le> m"
  shows "py_slice xs (int i) (int i + m) = take (nat m) (drop i xs)"
proof -
  from assms have hi: "nat (int i + m) = i + nat m" by simp
  have lo: "slice_index (length xs) (int i) = min (length xs) i"
    by (simp add: slice_index_def)
  from assms have hi': "slice_index (length xs) (int i + m) = min (length xs) (i + nat m)"
    by (simp add: slice_index_def hi)
  show ?thesis
  proof (cases "i \<le> length xs")
    case True
    then show ?thesis
      unfolding py_slice_def Let_def lo hi' by (simp add: min_def)
  next
    case False
    then show ?thesis
      unfolding py_slice_def Let_def lo hi' by simp
  qed
qed

lemma chunk_loop_keeps:
  "set chunks \<subseteq> set (chunk_loop words m ov chunks i)"
proof (induction words m ov chunks i rule: chunk_loop.induct)
  case (1 words m ov chunks i)
  show ?case
  proof (cases "i < length words")
    case True
    with 1 show ?thesis by (subst chunk_loop.simps) (auto split: if_splits)
  next
    case False
    then show ?thesis by (simp add: chunk_loop.simps)
  qed
qed

lemma chunk_loop_covers:
  "0 \<le> ov \<Longrightarrow> ov < m \<Longrightarrow> i \<le> j \<Longrightarrow> j < length words \<Longrightarrow>
    \<exists>k. k \<le> j \<and> int j < int k + m \<and>
      py_join (ascii '' '') (take (nat m) (drop k words)) \<in> set (chunk_loop words m ov chunks i)"
proof (induction words m ov chunks i rule: chunk_loop.induct)
  case (1 words m ov chunks i)
  note assms = \<open>0 \<le> ov\<close> \<open>ov < m\<close>
  from assms have m0: "0 \<le> m" by simp
  from \<open>i \<le> j\<close> \<open>j < length words\<close> have i: "i < length words" by simp
  let ?w = "py_slice words (int i) (int i + m)"
  let ?chunks = "if ?w \<noteq> [] then chunks @ [py_join (ascii '' '') ?w] else chunks"
  have unf: "chunk_loop words m ov chunks i = chunk_loop words m ov ?chunks (i + chunk_step m ov)"
    using i by (subst chunk_loop.simps) simp
  have w: "?w = take (nat m) (drop i words)" using m0 by (rule py_slice_window)
  show ?case
  proof (cases "i + chunk_step m ov \<le> j")
    case True
    from "1.IH" [OF i assms True \<open>j < length words\<close>] show ?thesis unfolding unf .
  next
    case False
    with assms have lt: "int j < int i + m" by (simp add: chunk_step_def)
    with i assms have "?w \<noteq> []" unfolding w by auto
    then have "py_join (ascii '' '') ?w \<in> set ?chunks" by simp
    with chunk_loop_keeps [of ?chunks words m ov "i + chunk_step m ov"]
    have "py_join (ascii '' '') ?w \<in> set (chunk_loop words m ov chunks i)"
      unfolding unf by blast
    with \<open>i \<le> j\<close> lt show ?thesis unfolding w by blast
  qed
qed

lemma chunk_loop_length:
  "length (chunk_loop words m ov chunks i) + i \<le> length chunks + max i (length words)"
proof (induction words m ov chunks i rule: chunk_loop.induct)
  case (1 words m ov chunks i)
  show ?case
  proof (cases "i < length words")
    case True
    have "0 < chunk_step m ov" by (simp add: chunk_step_def)
    with True 1 show ?thesis by (subst chunk_loop.simps) (auto split: if_splits)
  next
    case False
    then show ?thesis by (simp add: chunk_loop.simps)
  qed
qed

text \<open>
  Claim C5, as the code has it. The loop of \<open>split_into_chunks\<close> advances by
  \<open>max(1, max_tokens - overlap)\<close>, which is positive for all integers, so the function is
  total (its termination proof needs no hypothesis on the parameters) and returns at most
  one chunk per token; the empty text gives no chunk. When \<open>0 \<le> overlap < max_tokens\<close>,
  every whitespace-delimited token of the text is a token of some returned chunk.
  The copy in \<open>rag.py\<close> computes the same list.
\<close>

theorem split_into_chunks_covers:
  "(0 \<le> overlap \<and> overlap < max_tokens \<longrightarrow>
      (\<forall>t \<in> set (py_split text).
         \<exists>c \<in> set (split_into_chunks text max_tokens overlap). t \<in> set (py_split c)))
   \<and> 0 < chunk_step max_tokens overlap
   \<and> length (split_into_chunks text max_tokens overlap) \<le> length (py_split text)
   \<and> split_into_chunks [] max_tokens overlap = []
   \<and> rag_split_into_chunks text max_tokens overlap = split_into_chunks text max_tokens overlap"
proof (intro conjI impI ballI)
  fix t
  assume ov: "0 \<le> overlap \<and> overlap < max_tokens" and t: "t \<in> set (py_split text)"
  let ?ws = "py_split text"
  from t obtain j where j: "j < length ?ws" "?ws ! j = t"
    by (auto simp: in_set_conv_nth)
  from ov chunk_loop_covers [of overlap max_tokens 0 j ?ws "[]"] j
  obtain k where k: "k \<le> j" "int j < int k + max_tokens"
    "py_join (ascii '' '') (take (nat max_tokens) (drop k ?ws))
       \<in> set (split_into_chunks text max_tokens overlap)"
    unfolding split_into_chunks_def by auto
  let ?w = "take (nat max_tokens) (drop k ?ws)"
  have "\<forall>t \<in> set ?w. token t"
    by (auto dest!: in_set_takeD in_set_dropD intro: py_split_tokens)
  then have sp: "py_split (py_join (ascii '' '') ?w) = ?w" by (rule py_split_join)
  from k j have "j - k < length ?w" by auto
  moreover from k j have "?w ! (j - k) = t" by auto
  ultimately have "t \<in> set ?w" by (metis nth_mem)
  then have "t \<in> set (py_split (py_join (ascii '' '') ?w))" by (simp only: sp)
  with k(3) show "\<exists>c \<in> set (split_into_chunks text max_tokens overlap). t \<in> set (py_split c)"
    by (rule bexI [rotated])
next
  show "0 < chunk_step max_tokens overlap" by (simp add: chunk_step_def)
next
  from chunk_loop_length [of "py_split text" max_tokens overlap "[]" 0]
  show "length (split_into_chunks text max_tokens overlap) \<le> length (py_split text)"
    by (simp add: split_into_chunks_def)
next
  show "split_into_chunks [] max_tokens overlap = []"
    by (simp add: split_into_chunks_def py_split_def chunk_loop.simps)
next
  show "rag_split_into_chunks text max_tokens overlap = split_into_chunks text max_tokens overlap"
    by (simp add: split_into_chunks_def rag_split_into_chunks_def)
qed


lemma ascii_a: "ascii ''a'' = [97]" and ascii_b: "ascii ''b'' = [98]"
  and ascii_sp: "ascii '' '' = [32]"
  by (simp_all add: ascii_def)

lemma not_space_ab: "\<not> is_space 97" "\<not> is_space 98" "\<not> is_space 99"
  by (simp_all add: is_space_def)

theorem split_into_chunks_covers_witness:
  "(0::int) \<le> 1 \<and> (1::int) < 2
   \<and> py_split [97, 32, 98, 32, 99] = [[97], [98], [99]]
   \<and> (\<exists>c \<in> set (split_into_chunks [97, 32, 98, 32, 99] 2 1). [97] \<in> set (py_split c))
   \<and> (\<exists>c \<in> set (split_into_chunks [97, 32, 98, 32, 99] 2 1). [98] \<in> set (py_split c))
   \<and> (\<exists>c \<in> set (split_into_chunks [97, 32, 98, 32, 99] 2 1). [99] \<in> set (py_split c))"
proof -
  have sp: "py_split [97, 32, 98, 32, 99] = [[97], [98], [99]]"
    by (simp add: py_split_def is_space_32 not_space_ab)
  from split_into_chunks_covers [of 1 2 "[97, 32, 98, 32, 99]"]
  show ?thesis unfolding sp by simp
qed

text \<open>
  With a negative overlap the step exceeds the window: \<open>split_into_chunks("a b", 1, -1)\<close>
  is \<open>["a"]\<close>, and the token \<open>b\<close> is in no chunk although \<open>overlap < max_tokens\<close>.
\<close>

theorem split_into_chunks_negative_overlap:
  "(- 1 :: int) < 1
   \<and> ascii ''b'' \<in> set (py_split (ascii ''a b''))
   \<and> split_into_chunks (ascii ''a b'') 1 (- 1) = [ascii ''a'']
   \<and> ascii ''b'' \<notin> set (py_split (ascii ''a''))"
  by (simp add: split_into_chunks_def py_split_def ascii_def is_space_def py_slice_def
        slice_index_def chunk_step_def chunk_loop.simps)

section \<open>Properties of the dense store\<close>

lemma write_rows_ok:
  "\<forall>r \<in> set meta. \<exists>s. dumps_row ext r = Inr s \<Longrightarrow>
     \<exists>lines. write_rows ext meta written = (None, lines)
        \<and> length lines = length written + length meta"
proof (induction meta arbitrary: written)
  case Nil
  then show ?case by simp
next
  case (Cons r meta)
  from Cons.prems obtain s where s: "dumps_row ext r = Inr s" by auto
  from Cons.prems have "\<forall>r \<in> set meta. \<exists>s. dumps_row ext r = Inr s" by simp
  from Cons.IH [OF this, of "written @ [s @ [10]]"] s show ?case by auto
qed

lemma save_meta_ok:
  assumes "\<forall>r \<in> set meta. \<exists>s. dumps_row ext r = Inr s"
  shows "\<exists>lines. save_meta ext meta st = (Inr (), st\<lparr>meta_file := Some lines\<rparr>)
    \<and> length lines = length meta"
proof -
  from write_rows_ok [OF assms, of "[]"] obtain lines where
    "write_rows ext meta [] = (None, lines)" "length lines = length meta" by auto
  then show ?thesis by (auto simp: save_meta_def)
qed

lemma save_meta_caches:
  "index (snd (save_meta ext meta st)) = index st"
  "meta_cache (snd (save_meta ext meta st)) = meta_cache st"
  "index_file (snd (save_meta ext meta st)) = index_file st"
  by (simp_all add: save_meta_def split: prod.splits option.splits)

lemma build_mismatch:
  "length meta \<noteq> num_rows vectors \<Longrightarrow> build ext vectors meta st = (Inl ValueError, st)"
  by (cases vectors) (simp_all add: build_def)

lemma build_matrix_ok:
  assumes "length meta = length rows" and "\<forall>r \<in> set meta. \<exists>s. dumps_row ext r = Inr s"
  shows "\<exists>lines. build ext (Array2 rows) meta st
      = (Inr (), \<lparr>index_file = Some (map (l2n ext) rows), meta_file = Some lines,
                  index = Some (map (l2n ext) rows), meta_cache = Some meta\<rparr>)
    \<and> length lines = length meta"
proof -
  from save_meta_ok [OF assms(2), of "save_index (map (l2n ext) rows) st"]
  obtain lines where
    sm: "save_meta ext meta (save_index (map (l2n ext) rows) st)
      = (Inr (), save_index (map (l2n ext) rows) st\<lparr>meta_file := Some lines\<rparr>)"
    and len: "length lines = length meta" by blast
  from assms(1) sm have "build ext (Array2 rows) meta st
      = (Inr (), \<lparr>index_file = Some (map (l2n ext) rows), meta_file = Some lines,
                  index = Some (map (l2n ext) rows), meta_cache = Some meta\<rparr>)"
    by (simp add: build_def Let_def save_index_def)
  with len show ?thesis by blast
qed

lemma build_error_caches:
  assumes "fst (build ext vectors meta st) = Inl e"
  shows "index (snd (build ext vectors meta st)) = index st
    \<and> meta_cache (snd (build ext vectors meta st)) = meta_cache st"
proof (cases vectors)
  case (Array2 rows)
  show ?thesis
  proof (cases "length meta = length rows")
    case False
    with Array2 show ?thesis by (simp add: build_def)
  next
    case True
    let ?st1 = "save_index (map (l2n ext) rows) st"
    obtain r st2 where sm: "save_meta ext meta ?st1 = (r, st2)"
      by (cases "save_meta ext meta ?st1")
    with assms Array2 True obtain e' where "r = Inl e'"
      by (cases r) (simp_all add: build_def Let_def)
    with sm Array2 True have "snd (build ext vectors meta st) = snd (save_meta ext meta ?st1)"
      by (simp add: build_def Let_def)
    then show ?thesis by (simp add: save_meta_caches save_index_def)
  qed
next
  case (Array1 n)
  then show ?thesis by (simp add: build_def)
next
  case (Ragged n)
  then show ?thesis by (simp add: build_def)
qed

lemma build_dumps_fails:
  assumes "length meta = length rows" and "write_rows ext meta [] = (Some e, lines)"
  shows "build ext (Array2 rows) meta st
    = (Inl e, st\<lparr>index_file := Some (map (l2n ext) rows), meta_file := Some lines\<rparr>)"
  using assms by (simp add: build_def Let_def save_meta_def save_index_def)

text \<open>
  Claim C10, as the code has it. \<open>FAISSStore.build\<close> raises \<open>ValueError\<close> whenever the
  metadata list and \<open>vectors\<close> differ in their number of rows, and then the store is as it
  was: neither file and neither cached attribute changes. For a two-dimensional matrix
  whose metadata rows can all be written, \<open>build\<close> raises exactly when the lengths differ,
  and when they agree it succeeds: the index file and the metadata log it writes have one
  row per vector, and the cached index and metadata are the ones written. With equal
  lengths \<open>build\<close> still raises a \<open>ValueError\<close> on ragged rows (from the conversion, before
  the check), on a one-dimensional \<open>vectors\<close> (\<open>AxisError\<close> from the normalisation) and on a
  metadata row that cannot be written; in the last case the index file is already written
  and the log holds the rows before the failing one. Whenever \<open>build\<close> raises, the cached
  index and metadata are unchanged.
\<close>

theorem build_value_error:
  "(length meta \<noteq> num_rows vectors \<longrightarrow> build ext vectors meta st = (Inl ValueError, st))
   \<and> ((\<forall>r \<in> set meta. \<exists>s. dumps_row ext r = Inr s) \<longrightarrow>
        ((\<exists>e. fst (build ext (Array2 rows) meta st) = Inl e) \<longleftrightarrow> length meta \<noteq> length rows)
        \<and> (length meta = length rows \<longrightarrow>
             fst (build ext (Array2 rows) meta st) = Inr ()
             \<and> (\<exists>idx lines.
                   index_file (snd (build ext (Array2 rows) meta st)) = Some idx
                   \<and> meta_file (snd (build ext (Array2 rows) meta st)) = Some lines
                   \<and> length idx = length rows \<and> length lines = length meta
                   \<and> index (snd (build ext (Array2 rows) meta st)) = Some idx
                   \<and> meta_cache (snd (build ext (Array2 rows) meta st)) = Some meta)))
   \<and> build ext (Ragged n) meta st = (Inl ValueError, st)
   \<and> (length meta = n \<longrightarrow> build ext (Array1 n) meta st = (Inl AxisError, st))
   \<and> (fst (build ext vectors meta st) = Inl e \<longrightarrow>
        index (snd (build ext vectors meta st)) = index st
        \<and> meta_cache (snd (build ext vectors meta st)) = meta_cache st)
   \<and> (length meta = length rows \<and> write_rows ext meta [] = (Some e, lines) \<longrightarrow>
        build ext (Array2 rows) meta st
          = (Inl e, st\<lparr>index_file := Some (map (l2n ext) rows), meta_file := Some lines\<rparr>))"
proof (intro conjI impI)
  assume "length meta \<noteq> num_rows vectors"
  then show "build ext vectors meta st = (Inl ValueError, st)" by (rule build_mismatch)
next
  assume ok: "\<forall>r \<in> set meta. \<exists>s. dumps_row ext r = Inr s"
  show "(\<exists>e. fst (build ext (Array2 rows) meta st) = Inl e) \<longleftrightarrow> length meta \<noteq> length rows"
  proof (cases "length meta = length rows")
    case True
    from build_matrix_ok [OF True ok, of st] True show ?thesis by auto
  next
    case False
    then show ?thesis by (simp add: build_def)
  qed
next
  assume ok: "\<forall>r \<in> set meta. \<exists>s. dumps_row ext r = Inr s" and len: "length meta = length rows"
  from build_matrix_ok [OF len ok, of st]
  show "fst (build ext (Array2 rows) meta st) = Inr ()" by auto
next
  assume ok: "\<forall>r \<in> set meta. \<exists>s. dumps_row ext r = Inr s" and len: "length meta = length rows"
  from build_matrix_ok [OF len ok, of st]
  show "\<exists>idx lines.
      index_file (snd (build ext (Array2 rows) meta st)) = Some idx
      \<and> meta_file (snd (build ext (Array2 rows) meta st)) = Some lines
      \<and> length idx = length rows \<and> length lines = length meta
      \<and> index (snd (build ext (Array2 rows) meta st)) = Some idx
      \<and> meta_cache (snd (build ext (Array2 rows) meta st)) = Some meta" by auto
next
  show "build ext (Ragged n) meta st = (Inl ValueError, st)" by (simp add: build_def)
next
  assume "length meta = n"
  then show "build ext (Array1 n) meta st = (Inl AxisError, st)" by (simp add: build_def)
next
  assume "fst (build ext vectors meta st) = Inl e"
  then show "index (snd (build ext vectors meta st)) = index st"
    by (simp add: build_error_caches)
next
  assume "fst (build ext vectors meta st) = Inl e"
  then show "meta_cache (snd (build ext vectors meta st)) = meta_cache st"
    by (simp add: build_error_caches)
next
  assume "length meta = length rows \<and> write_rows ext meta [] = (Some e, lines)"
  then show "build ext (Array2 rows) meta st
          = (Inl e, st\<lparr>index_file := Some (map (l2n ext) rows), meta_file := Some lines\<rparr>)"
    by (simp add: build_dumps_fails)
qed

lemma toy_dumps:
  "dumps_row toy_ext (row_of_line [123]) = Inr [123]"
  "dumps_row toy_ext (row_of_line [55296]) = Inl ValueError"
  "l2n toy_ext v = v"
  by (simp_all add: toy_ext_def row_of_line_def)

text \<open>
  Equal lengths, and a \<open>ValueError\<close> all the same: \<open>build([], [])\<close>, whose \<open>vectors\<close> is
  one-dimensional; two ragged rows with two metadata rows; and one vector with one metadata
  row that cannot be written, where the index file is written and the log emptied before
  the exception.
\<close>

theorem build_value_error_counterexample:
  "length ([] :: chunk list) = num_rows (Array1 0 :: int list vectors_arg)
   \<and> build toy_ext (Array1 0) [] (new_store None None) = (Inl AxisError, new_store None None)
   \<and> is_value_error AxisError
   \<and> length [row_of_line [123], row_of_line [123]] = num_rows (Ragged 2 :: int list vectors_arg)
   \<and> build toy_ext (Ragged 2) [row_of_line [123], row_of_line [123]] (new_store None None)
       = (Inl ValueError, new_store None None)
   \<and> length [row_of_line [55296]] = num_rows (Array2 [[1 :: int]])
   \<and> build toy_ext (Array2 [[1]]) [row_of_line [55296]] (new_store None None)
       = (Inl ValueError,
          \<lparr>index_file = Some [[1]], meta_file = Some [], index = None, meta_cache = None\<rparr>)"
  by (simp add: build_def is_value_error_def save_meta_def save_index_def new_store_def
        toy_dumps Let_def)

theorem build_value_error_witness:
  "length [row_of_line [123]] \<noteq> num_rows (Array2 [[1], [2 :: int]])
   \<and> build toy_ext (Array2 [[1], [2]]) [row_of_line [123]] (new_store None None)
       = (Inl ValueError, new_store None None)
   \<and> length [row_of_line [123]] = length [[1 :: int]]
   \<and> (\<exists>s. dumps_row toy_ext (row_of_line [123]) = Inr s)
   \<and> fst (build toy_ext (Array2 [[1]]) [row_of_line [123]] (new_store None None)) = Inr ()
   \<and> index_file (snd (build toy_ext (Array2 [[1]]) [row_of_line [123]] (new_store None None)))
       = Some [[1]]
   \<and> meta_file (snd (build toy_ext (Array2 [[1]]) [row_of_line [123]] (new_store None None)))
       = Some [[123, 10]]
   \<and> write_rows toy_ext [row_of_line [55296]] [] = (Some ValueError, [])
   \<and> build toy_ext (Array2 [[1]]) [row_of_line [55296]] (new_store None None)
       = (Inl ValueError, new_store None None\<lparr>index_file := Some [[1]], meta_file := Some []\<rparr>)"
proof -
  have w: "write_rows toy_ext [row_of_line [55296]] [] = (Some ValueError, [])"
    by (simp add: toy_dumps)
  from build_value_error [of "[row_of_line [123]]" "Array2 [[1], [2]]" toy_ext "new_store None None"]
  have a: "build toy_ext (Array2 [[1], [2]]) [row_of_line [123]] (new_store None None)
       = (Inl ValueError, new_store None None)" by simp
  from build_value_error [where meta = "[row_of_line [55296]]" and rows = "[[1]]"
      and ext = toy_ext and st = "new_store None None" and e = ValueError and lines = "[]"] w
  have b: "build toy_ext (Array2 [[1]]) [row_of_line [55296]] (new_store None None)
       = (Inl ValueError, new_store None None\<lparr>index_file := Some [[1]], meta_file := Some []\<rparr>)"
    by (simp add: toy_dumps)
  from a b w show ?thesis
    by (simp add: build_def save_meta_def save_index_def toy_dumps Let_def)
qed

lemma load_meta_index_upd: "load_meta ext (st\<lparr>index := x\<rparr>) = load_meta ext st"
  by (simp add: load_meta_def)

lemma ensure_loaded_new_store:
  "ensure_loaded ext (new_store ifile mfile) =
     \<lparr>index_file = ifile, meta_file = mfile, index = ifile,
      meta_cache = Some (load_meta ext (new_store ifile mfile))\<rparr>"
proof -
  have "load_meta ext (new_store ifile mfile\<lparr>index := ifile\<rparr>) = load_meta ext (new_store ifile mfile)"
    by (rule load_meta_index_upd)
  then show ?thesis
    by (simp add: ensure_loaded_def load_index_def new_store_def Let_def)
qed

lemma search_new_store:
  "fst (search ext qvec k (new_store ifile mfile)) =
     (case ifile of
        None \<Rightarrow> Inr []
      | Some idx \<Rightarrow>
          if load_meta ext (new_store ifile mfile) = [] then Inr []
          else (case faiss_search ext idx (map (l2n ext) qvec)
                       (min k (int (length (load_meta ext (new_store ifile mfile))))) of
                  Inl e \<Rightarrow> Inl e
                | Inr (scores, idxs) \<Rightarrow>
                    collect_hits (load_meta ext (new_store ifile mfile)) (zip idxs scores)))"
  unfolding search_def ensure_loaded_new_store
  by (simp add: cached_rows_def Let_def split: option.splits sum.splits prod.splits)

lemma load_meta_none: "load_meta ext (new_store ifile None) = []"
  by (simp add: load_meta_def new_store_def)

lemma load_meta_all_bad:
  "\<forall>line \<in> set lines. py_strip line = [] \<or> loads_row ext (py_strip line) = None
   \<Longrightarrow> load_meta ext (new_store ifile (Some lines)) = []"
  by (auto simp: load_meta_def new_store_def List.map_filter_def filter_empty_conv)

lemma load_meta_skip:
  "py_strip bad = [] \<or> loads_row ext (py_strip bad) = None
   \<Longrightarrow> load_meta ext (new_store ifile (Some (l1 @ bad # l2)))
       = load_meta ext (new_store ifile (Some (l1 @ l2)))"
  by (auto simp: load_meta_def new_store_def List.map_filter_def)

text \<open>
  Claim C9, as the code has it. A store opened on its directory does not reject an
  index file whose metadata log is missing, empty or damaged: with no log, or with a log
  whose every line is blank or does not parse, \<open>search\<close> returns the empty list without
  an error; and a line that is blank or does not parse is skipped, so that \<open>search\<close>
  answers as if the line were not in the log, from the rows that remain.
\<close>

theorem search_reload_lenient:
  "fst (search ext qvec k (new_store ifile None)) = Inr []
   \<and> ((\<forall>line \<in> set lines. py_strip line = [] \<or> loads_row ext (py_strip line) = None)
        \<longrightarrow> fst (search ext qvec k (new_store ifile (Some lines))) = Inr [])
   \<and> (py_strip bad = [] \<or> loads_row ext (py_strip bad) = None
        \<longrightarrow> fst (search ext qvec k (new_store ifile (Some (l1 @ bad # l2))))
            = fst (search ext qvec k (new_store ifile (Some (l1 @ l2)))))"
proof (intro conjI impI)
  show "fst (search ext qvec k (new_store ifile None)) = Inr []"
    by (cases ifile) (simp_all add: search_new_store load_meta_none)
next
  assume "\<forall>line \<in> set lines. py_strip line = [] \<or> loads_row ext (py_strip line) = None"
  then have "load_meta ext (new_store ifile (Some lines)) = []" by (rule load_meta_all_bad)
  then show "fst (search ext qvec k (new_store ifile (Some lines))) = Inr []"
    by (cases ifile) (simp_all add: search_new_store)
next
  assume "py_strip bad = [] \<or> loads_row ext (py_strip bad) = None"
  then have "load_meta ext (new_store ifile (Some (l1 @ bad # l2)))
       = load_meta ext (new_store ifile (Some (l1 @ l2)))" by (rule load_meta_skip)
  then show "fst (search ext qvec k (new_store ifile (Some (l1 @ bad # l2))))
            = fst (search ext qvec k (new_store ifile (Some (l1 @ l2))))"
    unfolding search_new_store by (simp only:)
qed

lemma strip_simps:
  "py_strip [111, 111, 112, 115, 10] = [111, 111, 112, 115]"
  "py_strip [123, 125, 10] = [123, 125]"
  "py_strip [10] = []"
  by (simp_all add: py_strip_def is_space_def)

lemma toy_load_meta:
  "load_meta toy_ext (new_store ifile None) = []"
  "load_meta toy_ext (new_store ifile (Some [])) = []"
  "load_meta toy_ext (new_store ifile (Some [[10]])) = []"
  "load_meta toy_ext (new_store ifile (Some [[123, 125, 10]])) = [row_of_line [123, 125]]"
  "load_meta toy_ext (new_store ifile (Some [[111, 111, 112, 115, 10], [123, 125, 10]]))
     = [row_of_line [123, 125]]"
  by (simp_all add: load_meta_def new_store_def List.map_filter_def strip_simps toy_ext_def)

lemma toy_faiss:
  "faiss_search toy_ext idx q k =
     Inr (map (\<lambda>_. 0) [0 ..< min (nat k) (length idx)], map int [0 ..< min (nat k) (length idx)])"
  "l2n toy_ext v = v"
  by (simp_all add: toy_ext_def)

text \<open>
  An index file with no metadata log, or with an empty one, is answered with the empty
  list; an index of two vectors whose log has one damaged line and one good line is
  answered with the good row.
\<close>

theorem search_reload_counterexample:
  "fst (search toy_ext [[1]] 6 (new_store (Some [[1]]) None)) = Inr []
   \<and> fst (search toy_ext [[1]] 6 (new_store (Some [[1]]) (Some []))) = Inr []
   \<and> fst (search toy_ext [[1]] 6
        (new_store (Some [[1], [2]]) (Some [[111, 111, 112, 115, 10], [123, 125, 10]])))
       = Inr [chunk.extend (row_of_line [123, 125]) (hit.fields 0)]"
  unfolding search_new_store toy_load_meta toy_faiss by simp

theorem search_reload_lenient_witness:
  "py_strip [10] = []
   \<and> fst (search toy_ext [[1]] 6 (new_store (Some [[1]]) (Some [[10]]))) = Inr []
   \<and> fst (search toy_ext [[1]] 6 (new_store (Some [[1]]) (Some ([[123, 125, 10]] @ [10] # []))))
       = fst (search toy_ext [[1]] 6 (new_store (Some [[1]]) (Some ([[123, 125, 10]] @ []))))"
  using search_reload_lenient [of toy_ext "[[1]]" 6 "Some [[1]]" "[[10]]" "[10]" "[[123, 125, 10]]" "[]"]
  by (simp add: strip_simps)

section \<open>Properties of the retriever\<close>

text \<open>
  Claim C8, as the code has it. When no vectorizer was ever fitted, so that no vectorizer
  file exists and \<open>vec\<close> is \<open>None\<close>, \<open>TFIDFEmbedder.transform\<close> and
  \<open>RAGPipeline.embed\<close> raise \<open>RuntimeError\<close>, but \<open>RAGPipeline.retrieve\<close> tests
  for the missing vectorizer first and returns the empty list, leaving the pipeline as it
  was.
\<close>

theorem retrieve_unfitted:
  "vec (rag_embedder p) = None \<longrightarrow>
     retrieve ext q k p = (Inr [], p)
     \<and> embed p texts = Inl RuntimeError
     \<and> transform (rag_embedder p) texts = Inl RuntimeError"
  by (simp add: retrieve_def embed_def transform_def)

text \<open>Retrieval on a directory without a vectorizer file returns the empty list.\<close>

theorem retrieve_unfitted_counterexample:
  "vec (rag_embedder unfitted_pipeline) = None
   \<and> fst (retrieve toy_ext (ascii ''q'') 6 unfitted_pipeline) = Inr []"
  by (simp add: retrieve_def unfitted_pipeline_def)

theorem retrieve_unfitted_witness:
  "vec (rag_embedder unfitted_pipeline) = None
   \<and> retrieve toy_ext (ascii ''q'') 6 unfitted_pipeline = (Inr [], unfitted_pipeline)
   \<and> embed unfitted_pipeline [ascii ''q''] = Inl RuntimeError"
proof -
  have v: "vec (rag_embedder unfitted_pipeline) = None"
    by (simp add: unfitted_pipeline_def)
  with retrieve_unfitted [of unfitted_pipeline toy_ext "ascii ''q''" 6 "[ascii ''q'']"]
  show ?thesis by simp
qed

lemma py_slice_prefix_length: "0 \<le> k \<Longrightarrow> length (py_slice xs 0 k) \<le> nat k"
  by (simp add: py_slice_def slice_index_def Let_def)

lemma py_slice_prefix: "0 \<le> k \<Longrightarrow> py_slice xs 0 k = take (nat k) xs"
  by (simp add: py_slice_def slice_index_def Let_def min_def)

lemma rerank_Inr:
  "rerank hits scores order = Inr res \<Longrightarrow>
     res = map (\<lambda>i. hit.extend (hits ! i) (passage.fields (scores ! i))) order
     \<and> (\<forall>i \<in> set order. i < length hits)"
proof (induction order arbitrary: res)
  case Nil
  then show ?case by simp
next
  case (Cons i order)
  from Cons.prems have ok: "i < length hits \<and> i < length scores"
    by (simp split: if_splits)
  with Cons.prems obtain out where out: "rerank hits scores order = Inr out"
    and res: "res = hit.extend (hits ! i) (passage.fields (scores ! i)) # out"
    by (auto split: sum.splits)
  from Cons.IH [OF out] ok res show ?case by simp
qed

lemma collect_hits_Inr:
  "collect_hits meta pairs = Inr hits \<Longrightarrow>
     hits = map (\<lambda>(i, sc). chunk.extend (meta ! nat i) (hit.fields sc))
              (filter (\<lambda>(i, sc). 0 \<le> i) pairs)
     \<and> (\<forall>(i, sc) \<in> set pairs. 0 \<le> i \<longrightarrow> nat i < length meta)"
proof (induction pairs arbitrary: hits)
  case Nil
  then show ?case by simp
next
  case (Cons p pairs)
  obtain i sc where p: "p = (i, sc)" by (cases p)
  show ?case
  proof (cases "i < 0")
    case True
    with Cons.prems p have "collect_hits meta pairs = Inr hits" by simp
    from Cons.IH [OF this] True p show ?thesis by simp
  next
    case False
    with Cons.prems p have ok: "nat i < length meta" by (simp split: if_splits)
    with Cons.prems p False obtain out where out: "collect_hits meta pairs = Inr out"
      and hits: "hits = chunk.extend (meta ! nat i) (hit.fields sc) # out"
      by (auto split: sum.splits)
    from Cons.IH [OF out] ok hits False p show ?thesis by simp
  qed
qed

lemma passage_key_extend [simp]:
  "passage_key (hit.extend h (passage.fields b)) = (doc_id h, version_hash h, chunk_id h)"
  by (simp add: passage_key_def hit.extend_def passage.fields_def hit.defs chunk.defs)

lemma distinct_map_nth:
  assumes "distinct (map f xs)" "distinct js" "\<forall>i \<in> set js. i < length xs"
  shows "distinct (map (\<lambda>i. f (xs ! i)) js)"
proof -
  have "inj_on (\<lambda>i. f (xs ! i)) (set js)"
  proof (rule inj_onI)
    fix a b
    assume a: "a \<in> set js" and b: "b \<in> set js" and eq: "f (xs ! a) = f (xs ! b)"
    from a b assms(3) have la: "a < length (map f xs)" and lb: "b < length (map f xs)" by simp_all
    from eq la lb have "map f xs ! a = map f xs ! b" by simp
    with assms(1) la lb show "a = b" by (simp only: nth_eq_iff_index_eq)
  qed
  with assms(2) show ?thesis by (simp add: distinct_map)
qed

lemma distinct_filter_take:
  "distinct (filter P xs) \<Longrightarrow> distinct (filter P (take n xs))"
proof -
  assume d: "distinct (filter P xs)"
  have "filter P xs = filter P (take n xs) @ filter P (drop n xs)"
    by (metis append_take_drop_id filter_append)
  with d show ?thesis by simp
qed

lemma collect_hits_distinct:
  assumes res: "collect_hits meta (zip idxs scores) = Inr hits"
    and rows: "distinct (map chunk_key meta)"
    and once: "distinct (filter (\<lambda>i. 0 \<le> i) idxs)"
  shows "distinct (map (\<lambda>h. (doc_id h, version_hash h, chunk_id h)) hits)"
proof -
  let ?pairs = "filter (\<lambda>(i, sc). 0 \<le> i) (zip idxs scores)"
  let ?js = "map (\<lambda>(i, sc). nat i) ?pairs"
  from collect_hits_Inr [OF res]
  have hits: "hits = map (\<lambda>(i, sc). chunk.extend (meta ! nat i) (hit.fields sc)) ?pairs"
    and range: "\<forall>(i, sc) \<in> set (zip idxs scores). 0 \<le> i \<longrightarrow> nat i < length meta"
    by simp_all
  have keys: "map (\<lambda>h. (doc_id h, version_hash h, chunk_id h)) hits
      = map (\<lambda>j. chunk_key (meta ! j)) ?js"
    unfolding hits
    by (simp add: chunk_key_def chunk.extend_def hit.fields_def chunk.defs split_def comp_def)
  have "map fst (zip idxs scores) = take (length scores) idxs"
    by (simp add: map_fst_zip_take min_def)
  then have "filter (\<lambda>i. 0 \<le> i) (take (length scores) idxs)
      = filter (\<lambda>i. 0 \<le> i) (map fst (zip idxs scores))" by simp
  also have "\<dots> = map fst (filter ((\<lambda>i. 0 \<le> i) \<circ> fst) (zip idxs scores))"
    by (rule filter_map)
  also have "\<dots> = map fst ?pairs" by (simp add: comp_def split_def)
  finally have fst_pairs: "map fst ?pairs = filter (\<lambda>i. 0 \<le> i) (take (length scores) idxs)"
    by simp
  have "distinct (map fst ?pairs)"
    unfolding fst_pairs using once by (rule distinct_filter_take)
  moreover have "inj_on nat (set (map fst ?pairs))"
    by (rule inj_onI) auto
  ultimately have "distinct (map nat (map fst ?pairs))"
    by (simp only: distinct_map)
  then have djs: "distinct ?js" by (simp add: comp_def split_def)
  from range have "\<forall>j \<in> set ?js. j < length meta" by auto
  with rows djs have "distinct (map (\<lambda>j. chunk_key (meta ! j)) ?js)"
    by (rule distinct_map_nth)
  with keys show ?thesis by simp
qed

lemma search_Inr:
  assumes "search ext qvec k st0 = (Inr hits, st)"
  shows "hits = [] \<or>
    (\<exists>idx q k' scores idxs.
       faiss_search ext idx q k' = Inr (scores, idxs)
       \<and> collect_hits (cached_rows (ensure_loaded ext st0)) (zip idxs scores) = Inr hits)"
  using assms
  by (auto simp: search_def Let_def split: option.splits if_splits sum.splits prod.splits)

lemma search_empty:
  "index (ensure_loaded ext st0) = None \<or> cached_rows (ensure_loaded ext st0) = []
   \<Longrightarrow> fst (search ext qvec k st0) = Inr []"
  by (auto simp: search_def Let_def split: option.splits)

lemma retrieve_Inr:
  assumes "fst (retrieve ext q k p) = Inr res"
  shows "res = [] \<or>
    (\<exists>qvec hits st scores.
       search ext qvec (k * 2) (rag_index p) = (Inr hits, st)
       \<and> rerank hits scores (py_slice (argsort ext (map uminus scores)) 0 k) = Inr res)"
  using assms
  by (auto simp: retrieve_def Let_def split: option.splits if_splits sum.splits prod.splits)

lemma retrieve_empty:
  assumes "index (ensure_loaded ext (rag_index p)) = None
     \<or> cached_rows (ensure_loaded ext (rag_index p)) = []"
  shows "fst (retrieve ext q k p) = Inr []"
proof (cases "vec (rag_embedder p)")
  case None
  then show ?thesis by (simp add: retrieve_def)
next
  case (Some f)
  let ?qvec = "f [expand_query ext q]"
  from assms have "fst (search ext ?qvec (k * 2) (rag_index p)) = Inr []"
    by (rule search_empty)
  then obtain st where "search ext ?qvec (k * 2) (rag_index p) = (Inr [], st)"
    by (cases "search ext ?qvec (k * 2) (rag_index p)") simp
  with Some show ?thesis
    by (simp add: retrieve_def embed_def transform_def Let_def)
qed

lemma retrieve_length:
  assumes k: "1 \<le> k" and res: "fst (retrieve ext q k p) = Inr res"
  shows "length res \<le> nat k"
proof -
  from retrieve_Inr [OF res] show ?thesis
  proof
    assume "res = []"
    then show ?thesis by simp
  next
    assume "\<exists>qvec hits st scores.
       search ext qvec (k * 2) (rag_index p) = (Inr hits, st)
       \<and> rerank hits scores (py_slice (argsort ext (map uminus scores)) 0 k) = Inr res"
    then obtain hits scores where
      "rerank hits scores (py_slice (argsort ext (map uminus scores)) 0 k) = Inr res"
      by blast
    from rerank_Inr [OF this]
    have "length res = length (py_slice (argsort ext (map uminus scores)) 0 k)" by simp
    also from k have "\<dots> \<le> nat k" by (intro py_slice_prefix_length) simp
    finally show ?thesis .
  qed
qed

lemma retrieve_distinct:
  assumes faiss: "faiss_rows_once ext" and srt: "argsort_once ext"
    and rows: "distinct (map chunk_key (cached_rows (ensure_loaded ext (rag_index p))))"
    and k: "1 \<le> k" and res: "fst (retrieve ext q k p) = Inr res"
  shows "distinct (map passage_key res)"
proof -
  from retrieve_Inr [OF res] show ?thesis
  proof
    assume "res = []"
    then show ?thesis by simp
  next
    assume "\<exists>qvec hits st scores.
       search ext qvec (k * 2) (rag_index p) = (Inr hits, st)
       \<and> rerank hits scores (py_slice (argsort ext (map uminus scores)) 0 k) = Inr res"
    then obtain qvec hits st scores where
      s: "search ext qvec (k * 2) (rag_index p) = (Inr hits, st)" and
      r: "rerank hits scores (py_slice (argsort ext (map uminus scores)) 0 k) = Inr res"
      by blast
    let ?order = "py_slice (argsort ext (map uminus scores)) 0 k"
    let ?key = "\<lambda>h. (doc_id h, version_hash h, chunk_id h)"
    have dh: "distinct (map ?key hits)"
      using search_Inr [OF s]
    proof
      assume "hits = []"
      then show ?thesis by simp
    next
      assume "\<exists>idx q k' scores idxs.
        faiss_search ext idx q k' = Inr (scores, idxs)
        \<and> collect_hits (cached_rows (ensure_loaded ext (rag_index p))) (zip idxs scores) = Inr hits"
      then obtain idx q' k' scores' idxs where
        f: "faiss_search ext idx q' k' = Inr (scores', idxs)" and
        c: "collect_hits (cached_rows (ensure_loaded ext (rag_index p))) (zip idxs scores') = Inr hits"
        by blast
      from faiss f have "distinct (filter (\<lambda>i. 0 \<le> i) idxs)"
        unfolding faiss_rows_once_def by blast
      with c rows show ?thesis by (rule collect_hits_distinct)
    qed
    from k have "?order = take (nat k) (argsort ext (map uminus scores))"
      by (intro py_slice_prefix) simp
    moreover from srt have "distinct (argsort ext (map uminus scores))"
      unfolding argsort_once_def by blast
    ultimately have do: "distinct ?order" by simp
    from rerank_Inr [OF r]
    have res_eq: "res = map (\<lambda>i. hit.extend (hits ! i) (passage.fields (scores ! i))) ?order"
      and range: "\<forall>i \<in> set ?order. i < length hits" by simp_all
    have "map passage_key res = map (\<lambda>i. ?key (hits ! i)) ?order"
      by (subst res_eq) (simp add: comp_def)
    moreover from dh do range have "distinct (map (\<lambda>i. ?key (hits ! i)) ?order)"
      by (rule distinct_map_nth)
    ultimately show ?thesis by simp
  qed
qed

lemma ensure_loaded_built_empty:
  "cached_rows (ensure_loaded ext (snd (build ext (Array2 []) [] st))) = []"
  by (simp add: build_def Let_def save_index_def save_meta_def ensure_loaded_def cached_rows_def)

lemma ensure_loaded_no_index:
  "index (ensure_loaded ext (new_store None mfile)) = None"
  by (simp add: ensure_loaded_def new_store_def load_index_def Let_def)

text \<open>
  Claim C4, as the code has it. For \<open>k \<ge> 1\<close>, \<open>retrieve(q, k)\<close> returns at most \<open>k\<close>
  results. The results are rows of the dense store, each taken at most once (FAISS reports
  a row at most once and \<open>argsort\<close> a position at most once), so no two of them share
  \<open>(doc_id, version_hash, chunk_id)\<close> when no two rows of the store do; \<open>retrieve\<close> itself
  removes no duplicates. When the store has no index or no metadata rows, in particular
  when it was never built or was built from zero vectors, the result is the empty list and
  not an error.
\<close>

theorem retrieve_bounded:
  "(1 \<le> k \<and> fst (retrieve ext q k p) = Inr res \<longrightarrow> length res \<le> nat k)
   \<and> (1 \<le> k \<and> fst (retrieve ext q k p) = Inr res
        \<and> faiss_rows_once ext \<and> argsort_once ext
        \<and> distinct (map chunk_key (cached_rows (ensure_loaded ext (rag_index p))))
        \<longrightarrow> distinct (map passage_key res))
   \<and> (index (ensure_loaded ext (rag_index p)) = None
        \<or> cached_rows (ensure_loaded ext (rag_index p)) = []
        \<longrightarrow> fst (retrieve ext q k p) = Inr [])
   \<and> fst (retrieve ext q k (p\<lparr>rag_index := new_store None mfile\<rparr>)) = Inr []
   \<and> fst (retrieve ext q k (p\<lparr>rag_index := snd (build ext (Array2 []) [] st)\<rparr>)) = Inr []"
proof (intro conjI impI)
  assume "1 \<le> k \<and> fst (retrieve ext q k p) = Inr res"
  then show "length res \<le> nat k" by (auto intro: retrieve_length)
next
  assume "1 \<le> k \<and> fst (retrieve ext q k p) = Inr res
        \<and> faiss_rows_once ext \<and> argsort_once ext
        \<and> distinct (map chunk_key (cached_rows (ensure_loaded ext (rag_index p))))"
  then show "distinct (map passage_key res)" by (auto intro: retrieve_distinct)
next
  assume "index (ensure_loaded ext (rag_index p)) = None
        \<or> cached_rows (ensure_loaded ext (rag_index p)) = []"
  then show "fst (retrieve ext q k p) = Inr []" by (rule retrieve_empty)
next
  show "fst (retrieve ext q k (p\<lparr>rag_index := new_store None mfile\<rparr>)) = Inr []"
    by (rule retrieve_empty) (simp add: ensure_loaded_no_index)
next
  show "fst (retrieve ext q k (p\<lparr>rag_index := snd (build ext (Array2 []) [] st)\<rparr>)) = Inr []"
    by (rule retrieve_empty) (simp add: ensure_loaded_built_empty)
qed

lemma retrieve_fst:
  "fst (retrieve ext q k p) =
     (case vec (rag_embedder p) of
        None \<Rightarrow> Inr []
      | Some f \<Rightarrow>
          (case fst (search ext (f [expand_query ext q]) (k * 2) (rag_index p)) of
             Inl e \<Rightarrow> Inl e
           | Inr hits \<Rightarrow>
               if hits = [] then Inr []
               else (case bm25_scores ext (build_bm25 ext (map chunk_text hits))
                            (py_split (str_lower ext (expand_query ext q))) of
                       Inl e \<Rightarrow> Inl e
                     | Inr scores \<Rightarrow>
                         rerank hits scores (py_slice (argsort ext (map uminus scores)) 0 k))))"
  by (simp add: retrieve_def embed_def transform_def Let_def
        split: option.splits sum.splits prod.splits)

lemma toy_fields:
  "str_lower toy_ext s = s"
  "bm25_scores toy_ext corpus query = Inr (map (\<lambda>_. 0) corpus)"
  "argsort toy_ext xs = [0 ..< length xs]"
  "loads_row toy_ext l = (if take 1 l = [123] then Some (row_of_line l) else None)"
  by (simp_all add: toy_ext_def)

lemma toy_expand_q: "expand_query toy_ext (ascii ''q'') = ascii ''q''"
  by (simp add: expand_query_def toy_fields ascii_def Let_def)

lemma strip_rows:
  "py_strip [123, 49, 10] = [123, 49]"
  "py_strip [123, 50, 10] = [123, 50]"
  by (simp_all add: py_strip_def is_space_def)

lemma toy_load_rows:
  "load_meta toy_ext (new_store ifile (Some [[123, 49, 10], [123, 49, 10]]))
     = [row_of_line [123, 49], row_of_line [123, 49]]"
  "load_meta toy_ext (new_store ifile (Some [[123, 49, 10], [123, 50, 10]]))
     = [row_of_line [123, 49], row_of_line [123, 50]]"
  by (simp_all add: load_meta_def new_store_def List.map_filter_def strip_rows toy_fields)

lemma upt_2: "[0 ..< 2] = [0, Suc 0]"
  by (simp add: numeral_2_eq_2)

text \<open>
  A store whose metadata log holds the same row twice (as two equal lines of the URL list
  produce): both copies are returned, with the same \<open>(doc_id, version_hash, chunk_id)\<close>.
\<close>

theorem retrieve_duplicates_counterexample:
  "(1::int) \<le> 2
   \<and> fst (retrieve toy_ext (ascii ''q'') 2
          (toy_pipeline [[1], [1]] [[123, 49, 10], [123, 49, 10]]))
       = Inr [hit.extend (chunk.extend (row_of_line [123, 49]) (hit.fields 0)) (passage.fields 0),
              hit.extend (chunk.extend (row_of_line [123, 49]) (hit.fields 0)) (passage.fields 0)]"
  unfolding retrieve_fst toy_pipeline_def
  by (simp add: search_new_store toy_load_rows toy_faiss toy_fields toy_expand_q toy_vec_def
        build_bm25_def py_slice_def slice_index_def upt_2)

lemma toy_rows_once: "faiss_rows_once toy_ext"
  by (auto simp: faiss_rows_once_def toy_faiss distinct_map intro: distinct_filter inj_onI)

lemma toy_argsort_once: "argsort_once toy_ext"
  by (simp add: argsort_once_def toy_fields)

lemma toy_two_rows:
  "cached_rows (ensure_loaded toy_ext
      (rag_index (toy_pipeline [[1], [1]] [[123, 49, 10], [123, 50, 10]])))
     = [row_of_line [123, 49], row_of_line [123, 50]]"
  by (simp add: toy_pipeline_def ensure_loaded_new_store cached_rows_def toy_load_rows)

lemma toy_retrieve_two:
  "fst (retrieve toy_ext (ascii ''q'') 2
          (toy_pipeline [[1], [1]] [[123, 49, 10], [123, 50, 10]]))
       = Inr [hit.extend (chunk.extend (row_of_line [123, 49]) (hit.fields 0)) (passage.fields 0),
              hit.extend (chunk.extend (row_of_line [123, 50]) (hit.fields 0)) (passage.fields 0)]"
  unfolding retrieve_fst toy_pipeline_def
  by (simp add: search_new_store toy_load_rows toy_faiss toy_fields toy_expand_q toy_vec_def
        build_bm25_def py_slice_def slice_index_def upt_2)

theorem retrieve_bounded_witness:
  "(1::int) \<le> 2
   \<and> fst (retrieve toy_ext (ascii ''q'') 2
          (toy_pipeline [[1], [1]] [[123, 49, 10], [123, 50, 10]]))
       = Inr [hit.extend (chunk.extend (row_of_line [123, 49]) (hit.fields 0)) (passage.fields 0),
              hit.extend (chunk.extend (row_of_line [123, 50]) (hit.fields 0)) (passage.fields 0)]
   \<and> faiss_rows_once toy_ext \<and> argsort_once toy_ext
   \<and> distinct (map chunk_key (cached_rows (ensure_loaded toy_ext
        (rag_index (toy_pipeline [[1], [1]] [[123, 49, 10], [123, 50, 10]])))))
   \<and> length [hit.extend (chunk.extend (row_of_line [123, 49]) (hit.fields (0::int))) (passage.fields (0::int)),
              hit.extend (chunk.extend (row_of_line [123, 50]) (hit.fields 0)) (passage.fields 0)]
       \<le> nat 2
   \<and> distinct (map passage_key
        [hit.extend (chunk.extend (row_of_line [123, 49]) (hit.fields (0::int))) (passage.fields (0::int)),
         hit.extend (chunk.extend (row_of_line [123, 50]) (hit.fields 0)) (passage.fields 0)])
   \<and> index (ensure_loaded toy_ext (rag_index (toy_pipeline [[1], [1]] []))) = Some [[1], [1]]
   \<and> cached_rows (ensure_loaded toy_ext (rag_index (toy_pipeline [[1], [1]] []))) = []
   \<and> fst (retrieve toy_ext (ascii ''q'') 2 (toy_pipeline [[1], [1]] [])) = Inr []"
proof -
  let ?p = "toy_pipeline [[1], [1]] [[123, 49, 10], [123, 50, 10]]"
  let ?res = "[hit.extend (chunk.extend (row_of_line [123, 49]) (hit.fields (0::int))) (passage.fields (0::int)),
               hit.extend (chunk.extend (row_of_line [123, 50]) (hit.fields 0)) (passage.fields 0)]"
  have rows: "distinct (map chunk_key (cached_rows (ensure_loaded toy_ext (rag_index ?p))))"
    unfolding toy_two_rows by (simp add: chunk_key_def row_of_line_def)
  have empty: "cached_rows (ensure_loaded toy_ext (rag_index (toy_pipeline [[1], [1]] []))) = []"
    by (simp add: toy_pipeline_def ensure_loaded_new_store cached_rows_def toy_load_meta)
  have idx: "index (ensure_loaded toy_ext (rag_index (toy_pipeline [[1], [1]] []))) = Some [[1], [1]]"
    by (simp add: toy_pipeline_def ensure_loaded_new_store)
  from retrieve_bounded [where k = 2 and ext = toy_ext and q = "ascii ''q''" and p = ?p
      and res = ?res] toy_retrieve_two toy_rows_once toy_argsort_once rows
  have a: "length ?res \<le> nat 2" and b: "distinct (map passage_key ?res)" by simp_all
  from retrieve_bounded [where k = 2 and ext = toy_ext and q = "ascii ''q''"
      and p = "toy_pipeline [[1], [1]] []" and res = "[]"] empty
  have c: "fst (retrieve toy_ext (ascii ''q'') 2 (toy_pipeline [[1], [1]] [])) = Inr []"
    by simp
  from a b c toy_retrieve_two toy_rows_once toy_argsort_once rows empty idx
  show ?thesis by simp
qed

section \<open>Properties of the answer assembler\<close>

lemma ascii_eq_iff [simp]: "ascii s = ascii t \<longleftrightarrow> s = t"
  unfolding ascii_def by (simp add: inj_map_eq_map inj_on_def)

lemma dict_get_set [simp]:
  "dict_get (dict_set d k v) k' = (if k' = k then v else dict_get d k')"
  by (simp add: dict_get_def dict_set_def update_conv')


lemma no_evidence_fields:
  "dict_get (no_evidence_answer ext q) (ascii ''compliance_status'') = PStr (ascii ''Unclear'')"
  "dict_get (no_evidence_answer ext q) (ascii ''citations'') = PList []"
  "dict_get (no_evidence_answer ext q) (ascii ''human_supervision_required'') = PBool True"
  "dict_get (no_evidence_answer ext q) (ascii ''violations_or_risks'')
     = PList (map PStr (risks (backfill_risks_suggestions ext q)))"
  "dict_get (no_evidence_answer ext q) (ascii ''alternative_suggestions'')
     = PList (map PStr (alts (backfill_risks_suggestions ext q)))"
  by (simp_all add: no_evidence_answer_def dict_get_def Let_def)



lemma strip_status:
  "py_strip (ascii ''Unclear'') = ascii ''Unclear''"
  "py_strip (ascii ''Compliant'') = ascii ''Compliant''"
  "py_strip (ascii ''Not Compliant'') = ascii ''Not Compliant''"
  by (simp_all add: py_strip_def ascii_def is_space_def)

lemma supervision_policy_Inr:
  "supervision_policy d = Inr d' \<Longrightarrow> supervised d'"
  by (auto simp: supervision_policy_def supervised_def split: pyval.splits)

lemma no_evidence_supervised: "supervised (no_evidence_answer ext q)"
  by (simp add: supervised_def no_evidence_fields py_or_def strip_status)

lemma assemble_Inr:
  "assemble ext b q passages reply = Inr d' \<Longrightarrow>
     \<exists>d0 d1. (case json_loads b reply of None \<Rightarrow> PDict (fallback_data reply passages) | Some v \<Rightarrow> v)
                = PDict d0
       \<and> normalise_citations b passages d0 = Inr d1
       \<and> supervision_policy (backfill_empty ext q d1) = Inr d'"
  by (auto simp: assemble_def split: pyval.splits sum.splits)

lemma answer_Inr:
  assumes "fst (answer ext b q k w) = Inr d'"
  shows "(fst (retrieve ext q k (pipeline w)) = Inr [] \<and> d' = no_evidence_answer ext q)
    \<or> (\<exists>passages reply. fst (retrieve ext q k (pipeline w)) = Inr passages \<and> passages \<noteq> []
          \<and> generate b (format_prompt b q passages) = Inr reply
          \<and> assemble ext b q passages reply = Inr d')"
  using assms
  by (auto simp: answer_def Let_def split: prod.splits sum.splits if_splits)

lemma supervised_plain:
  assumes "supervised d" and "\<forall>s. dict_get d (ascii ''compliance_status'') = PStr s \<longrightarrow> py_strip s = s"
  shows "dict_get d (ascii ''human_supervision_required'')
    = PBool (dict_get d (ascii ''compliance_status'') \<noteq> PStr (ascii ''Compliant''))"
proof -
  let ?v = "dict_get d (ascii ''compliance_status'')"
  from assms(1) obtain s where s: "py_or ?v (PStr (ascii ''Unclear'')) = PStr s"
    and h: "dict_get d (ascii ''human_supervision_required'') = PBool (py_strip s \<noteq> ascii ''Compliant'')"
    unfolding supervised_def by blast
  show ?thesis
  proof (cases "truthy ?v")
    case True
    with s have v: "?v = PStr s" by (simp add: py_or_def)
    with assms(2) have "py_strip s = s" by simp
    with h v show ?thesis by simp
  next
    case False
    with s have "s = ascii ''Unclear''" by (simp add: py_or_def)
    with h have "dict_get d (ascii ''human_supervision_required'') = PBool True"
      by (simp add: strip_status)
    moreover from False have "?v \<noteq> PStr (ascii ''Compliant'')"
      by (auto simp: ascii_def)
    ultimately show ?thesis by simp
  qed
qed

text \<open>
  Claim C1, as the code has it. Every record \<open>answer\<close> returns has its supervision flag
  recomputed: the flag is \<open>status != "Compliant"\<close>, where \<open>status\<close> is the record's
  \<open>compliance_status\<close>, \<open>"Unclear"\<close> when that is missing or falsy, with the surrounding
  whitespace removed. The record keeps the \<open>compliance_status\<close> the model gave. So the flag
  equals \<open>compliance_status != "Compliant"\<close> whenever the status carries no surrounding
  whitespace, in particular for each of the three status values.
\<close>

theorem answer_supervision:
  "fst (answer ext b q k w) = Inr d \<longrightarrow>
     (\<exists>s. py_or (dict_get d (ascii ''compliance_status'')) (PStr (ascii ''Unclear'')) = PStr s
        \<and> dict_get d (ascii ''human_supervision_required'')
            = PBool (py_strip s \<noteq> ascii ''Compliant''))
     \<and> ((\<forall>s. dict_get d (ascii ''compliance_status'') = PStr s \<longrightarrow> py_strip s = s)
          \<longrightarrow> dict_get d (ascii ''human_supervision_required'')
              = PBool (dict_get d (ascii ''compliance_status'') \<noteq> PStr (ascii ''Compliant'')))
     \<and> (dict_get d (ascii ''compliance_status'')
            \<in> {PStr (ascii ''Compliant''), PStr (ascii ''Not Compliant''), PStr (ascii ''Unclear'')}
          \<longrightarrow> dict_get d (ascii ''human_supervision_required'')
              = PBool (dict_get d (ascii ''compliance_status'') \<noteq> PStr (ascii ''Compliant'')))"
proof (intro impI)
  assume a: "fst (answer ext b q k w) = Inr d"
  have sup: "supervised d"
    using answer_Inr [OF a]
  proof
    assume "fst (retrieve ext q k (pipeline w)) = Inr [] \<and> d = no_evidence_answer ext q"
    then show ?thesis by (simp add: no_evidence_supervised)
  next
    assume "\<exists>passages reply. fst (retrieve ext q k (pipeline w)) = Inr passages \<and> passages \<noteq> []
          \<and> generate b (format_prompt b q passages) = Inr reply
          \<and> assemble ext b q passages reply = Inr d"
    then obtain passages reply where "assemble ext b q passages reply = Inr d" by blast
    from assemble_Inr [OF this] obtain d1 where
      "supervision_policy (backfill_empty ext q d1) = Inr d" by blast
    then show ?thesis by (rule supervision_policy_Inr)
  qed
  have plain: "(\<forall>s. dict_get d (ascii ''compliance_status'') = PStr s \<longrightarrow> py_strip s = s)
      \<longrightarrow> dict_get d (ascii ''human_supervision_required'')
          = PBool (dict_get d (ascii ''compliance_status'') \<noteq> PStr (ascii ''Compliant''))"
    using sup by (auto intro: supervised_plain)
  have three: "dict_get d (ascii ''compliance_status'')
        \<in> {PStr (ascii ''Compliant''), PStr (ascii ''Not Compliant''), PStr (ascii ''Unclear'')}
      \<longrightarrow> dict_get d (ascii ''human_supervision_required'')
          = PBool (dict_get d (ascii ''compliance_status'') \<noteq> PStr (ascii ''Compliant''))"
  proof
    assume "dict_get d (ascii ''compliance_status'')
        \<in> {PStr (ascii ''Compliant''), PStr (ascii ''Not Compliant''), PStr (ascii ''Unclear'')}"
    then have "\<forall>s. dict_get d (ascii ''compliance_status'') = PStr s \<longrightarrow> py_strip s = s"
      by (auto simp: strip_status)
    with plain show "dict_get d (ascii ''human_supervision_required'')
          = PBool (dict_get d (ascii ''compliance_status'') \<noteq> PStr (ascii ''Compliant''))"
      by blast
  qed
  from sup plain three show "(\<exists>s. py_or (dict_get d (ascii ''compliance_status'')) (PStr (ascii ''Unclear'')) = PStr s
        \<and> dict_get d (ascii ''human_supervision_required'')
            = PBool (py_strip s \<noteq> ascii ''Compliant''))
     \<and> ((\<forall>s. dict_get d (ascii ''compliance_status'') = PStr s \<longrightarrow> py_strip s = s)
          \<longrightarrow> dict_get d (ascii ''human_supervision_required'')
              = PBool (dict_get d (ascii ''compliance_status'') \<noteq> PStr (ascii ''Compliant'')))
     \<and> (dict_get d (ascii ''compliance_status'')
            \<in> {PStr (ascii ''Compliant''), PStr (ascii ''Not Compliant''), PStr (ascii ''Unclear'')}
          \<longrightarrow> dict_get d (ascii ''human_supervision_required'')
              = PBool (dict_get d (ascii ''compliance_status'') \<noteq> PStr (ascii ''Compliant'')))"
    unfolding supervised_def by blast
qed




lemma backfill_empty_citations [simp]:
  "dict_get (backfill_empty ext q d) (ascii ''citations'') = dict_get d (ascii ''citations'')"
  by (simp add: backfill_empty_def Let_def)

lemma backfill_empty_status [simp]:
  "dict_get (backfill_empty ext q d) (ascii ''compliance_status'')
     = dict_get d (ascii ''compliance_status'')"
  by (simp add: backfill_empty_def Let_def)










lemma answer_fst:
  "fst (answer ext b q k w) =
     (case fst (retrieve ext q k (pipeline w)) of
        Inl e \<Rightarrow> Inl e
      | Inr passages \<Rightarrow>
          if passages = [] then Inr (no_evidence_answer ext q)
          else (case generate b (format_prompt b q passages) of
                  Inl e \<Rightarrow> Inl e
                | Inr reply \<Rightarrow> assemble ext b q passages reply))"
  by (simp add: answer_def Let_def split: prod.splits sum.splits)

lemma is_str_iff: "is_str v \<longleftrightarrow> (\<exists>s. v = PStr s)"
  by (cases v) simp_all









lemma toy_load_one:
  "load_meta toy_ext (new_store ifile (Some [[123, 49, 10]])) = [row_of_line [123, 49]]"
  by (simp add: load_meta_def new_store_def List.map_filter_def strip_rows toy_fields)

lemma toy_retrieve_one:
  "fst (retrieve toy_ext (ascii ''q'') 6 (pipeline toy_world)) = Inr [toy_passage]"
  unfolding retrieve_fst toy_world_def toy_pipeline_def toy_passage_def
  by (simp add: search_new_store toy_load_one toy_faiss toy_fields toy_expand_q toy_vec_def
        build_bm25_def py_slice_def slice_index_def)

lemma toy_backend_fields:
  "generate (toy_backend reply parsed) prompt = Inr reply"
  "json_loads (toy_backend reply parsed) reply = parsed"
  by (simp_all add: toy_backend_def)

lemma toy_answer:
  "fst (answer toy_ext (toy_backend reply parsed) (ascii ''q'') 6 toy_world)
     = assemble toy_ext (toy_backend reply parsed) (ascii ''q'') [toy_passage] reply"
  by (simp add: answer_fst toy_retrieve_one toy_backend_fields)

lemma toy_assemble_status:
  assumes "s \<noteq> []"
  shows "assemble toy_ext (toy_backend reply (Some (PDict [(ascii ''compliance_status'', PStr s)])))
      (ascii ''q'') [toy_passage] reply
    = Inr [(ascii ''compliance_status'', PStr s),
           (ascii ''citations'', PList [citation_of 300 toy_passage]),
           (ascii ''violations_or_risks'',
              PList (map PStr (risks (backfill_risks_suggestions toy_ext (ascii ''q''))))),
           (ascii ''alternative_suggestions'',
              PList (map PStr (alts (backfill_risks_suggestions toy_ext (ascii ''q''))))),
           (ascii ''human_supervision_required'', PBool (py_strip s \<noteq> ascii ''Compliant''))]"
  using assms
  by (simp add: assemble_def toy_backend_fields normalise_citations_def backfill_empty_def
        supervision_policy_def dict_get_def dict_set_def py_or_def Let_def)

lemma strip_padded: "py_strip (ascii ''Compliant '') = ascii ''Compliant''"
  by (simp add: py_strip_def ascii_def is_space_def)

text \<open>
  The model answers \<open>{"compliance_status": "Compliant "}\<close>, with a trailing space: the
  record keeps that status, which is not \<open>"Compliant"\<close>, and its flag is \<open>False\<close>.
\<close>

theorem answer_supervision_counterexample:
  "fst (answer toy_ext
         (toy_backend
            (ascii ''{'' @ [34] @ ascii ''compliance_status'' @ [34] @ ascii '': '' @ [34]
               @ ascii ''Compliant '' @ [34] @ ascii ''}'')
            (Some (PDict [(ascii ''compliance_status'', PStr (ascii ''Compliant ''))])))
         (ascii ''q'') 6 toy_world)
     = Inr [(ascii ''compliance_status'', PStr (ascii ''Compliant '')),
            (ascii ''citations'', PList [citation_of 300 toy_passage]),
            (ascii ''violations_or_risks'',
               PList (map PStr (risks (backfill_risks_suggestions toy_ext (ascii ''q''))))),
            (ascii ''alternative_suggestions'',
               PList (map PStr (alts (backfill_risks_suggestions toy_ext (ascii ''q''))))),
            (ascii ''human_supervision_required'', PBool False)]
   \<and> PStr (ascii ''Compliant '') \<noteq> PStr (ascii ''Compliant'')"
proof -
  have ne: "ascii ''Compliant '' \<noteq> []" by (simp add: ascii_def)
  show ?thesis by (simp add: toy_answer toy_assemble_status [OF ne] strip_padded)
qed

theorem answer_supervision_witness:
  "fst (answer toy_ext
         (toy_backend
            (ascii ''{'' @ [34] @ ascii ''compliance_status'' @ [34] @ ascii '': '' @ [34]
               @ ascii ''Not Compliant'' @ [34] @ ascii ''}'')
            (Some (PDict [(ascii ''compliance_status'', PStr (ascii ''Not Compliant''))])))
         (ascii ''q'') 6 toy_world)
     = Inr [(ascii ''compliance_status'', PStr (ascii ''Not Compliant'')),
            (ascii ''citations'', PList [citation_of 300 toy_passage]),
            (ascii ''violations_or_risks'',
               PList (map PStr (risks (backfill_risks_suggestions toy_ext (ascii ''q''))))),
            (ascii ''alternative_suggestions'',
               PList (map PStr (alts (backfill_risks_suggestions toy_ext (ascii ''q''))))),
            (ascii ''human_supervision_required'', PBool True)]
   \<and> dict_get
         [(ascii ''compliance_status'', PStr (ascii ''Not Compliant'')),
          (ascii ''citations'', PList [citation_of 300 toy_passage]),
          (ascii ''violations_or_risks'',
             PList (map PStr (risks (backfill_risks_suggestions toy_ext (ascii ''q''))))),
          (ascii ''alternative_suggestions'',
             PList (map PStr (alts (backfill_risks_suggestions toy_ext (ascii ''q''))))),
          (ascii ''human_supervision_required'', PBool True)]
         (ascii ''human_supervision_required'')
       = PBool (PStr (ascii ''Not Compliant'') \<noteq> PStr (ascii ''Compliant''))"
proof -
  let ?b = "toy_backend
            (ascii ''{'' @ [34] @ ascii ''compliance_status'' @ [34] @ ascii '': '' @ [34]
               @ ascii ''Not Compliant'' @ [34] @ ascii ''}'')
            (Some (PDict [(ascii ''compliance_status'', PStr (ascii ''Not Compliant''))]))"
  let ?d = "[(ascii ''compliance_status'', PStr (ascii ''Not Compliant'')),
          (ascii ''citations'', PList [citation_of 300 toy_passage]),
          (ascii ''violations_or_risks'',
             PList (map PStr (risks (backfill_risks_suggestions toy_ext (ascii ''q''))))),
          (ascii ''alternative_suggestions'',
             PList (map PStr (alts (backfill_risks_suggestions toy_ext (ascii ''q''))))),
          (ascii ''human_supervision_required'', PBool True)]"
  have ne: "ascii ''Not Compliant'' \<noteq> []" by (simp add: ascii_def)
  have a: "fst (answer toy_ext ?b (ascii ''q'') 6 toy_world) = Inr ?d"
    by (simp add: toy_answer toy_assemble_status [OF ne] strip_status)
  have c: "dict_get ?d (ascii ''compliance_status'') = PStr (ascii ''Not Compliant'')"
    by (simp add: dict_get_def)
  from answer_supervision [of toy_ext ?b "ascii ''q''" 6 toy_world ?d] a c
  have "dict_get ?d (ascii ''human_supervision_required'')
       = PBool (PStr (ascii ''Not Compliant'') \<noteq> PStr (ascii ''Compliant''))"
    by simp
  with a show ?thesis by simp
qed





section \<open>Ingestion: registering a version\<close>

lemma now_iso_manifest [simp]:
  "manifest_file (snd (now_iso env st)) = manifest_file st"
  by (simp add: now_iso_def)

lemma append_chunk_manifest [simp]:
  "manifest_file (snd (append_chunk env rec st)) = manifest_file st"
  by (simp add: append_chunk_def split: sum.splits)

lemma write_chunks_manifest [simp]:
  "manifest_file (snd (write_chunks env name vh page_num chunks st)) = manifest_file st"
proof (induction chunks arbitrary: st)
  case Nil
  then show ?case by simp
next
  case (Cons c chunks)
  obtain i chunk where c: "c = (i, chunk)" by (cases c)
  let ?rec = "[(ascii ''doc_id'', PStr name),
              (ascii ''version_hash'', vh),
              (ascii ''page'', PInt page_num),
              (ascii ''chunk_id'',
                 PStr (str_of_int env page_num @ ascii ''-'' @ str_of_int env (int i))),
              (ascii ''text'', PStr chunk),
              (ascii ''source'', PStr name),
              (ascii ''clause'',
                 case guess_clause_label env chunk of None \<Rightarrow> PNone | Some l \<Rightarrow> PStr l)]"
  obtain r st' where a: "append_chunk env ?rec st = (r, st')" by (cases "append_chunk env ?rec st")
  from append_chunk_manifest [of env ?rec st] a have m: "manifest_file st' = manifest_file st"
    by simp
  show ?case
  proof (cases r)
    case (Inl e)
    with a c m show ?thesis by simp
  next
    case (Inr u)
    with a c m Cons.IH [of st'] show ?thesis by simp
  qed
qed

lemma write_pages_manifest [simp]:
  "manifest_file (snd (write_pages env name vh pages st)) = manifest_file st"
proof (induction pages arbitrary: st)
  case Nil
  then show ?case by simp
next
  case (Cons p pages)
  obtain page_num page_txt where p: "p = (page_num, page_txt)" by (cases p)
  let ?w = "write_chunks env name vh page_num (enumerate 0 (split_into_chunks page_txt 420 60)) st"
  obtain r st' where a: "?w = (r, st')" by (cases ?w)
  from write_chunks_manifest [of env name vh page_num _ st] a
  have m: "manifest_file st' = manifest_file st" by (metis snd_conv)
  show ?case
  proof (cases r)
    case (Inl e)
    with a p m show ?thesis by simp
  next
    case (Inr u)
    with a p m Cons.IH [of st'] show ?thesis by simp
  qed
qed







lemma build_index_manifest [simp]:
  "manifest_file (snd (build_index env ext st)) = manifest_file st"
  by (simp add: build_index_def split: option.splits sum.splits prod.splits)




lemma key_eq_refl [simp]: "key_eq k k"
  by (cases k) (simp_all add: key_eq_def)

lemma klookup_kupdate [simp]: "klookup (kupdate k v d) k = Some v"
  by (induction d) auto












section \<open>Reranking\<close>



lemma bm25_extend [simp]: "bm25 (hit.extend h (passage.fields s)) = s"
  by (simp add: hit.defs passage.defs)



























end
